theory Spec2Isabelle
  imports Complex_Main
begin

section \<open>Armature Animation Rotate: the scene model\<close>

text \<open>
  The script \<^verbatim>\<open>Blender/3.4/Armature Animation Rotate.py\<close> is a straight-line
  sequence of calls into the host's scene API. The scene is modelled as an explicit
  state; every Python reference to an object or an action is an index into a store, so
  that sharing (a copy of an object refers to the same action) is visible.

  Geometry. The script only ever changes a rotation about the Z axis. A vector is its
  XY part, as a complex number, and its Z coordinate; a rotation about Z multiplies the
  XY part by \<open>cis \<theta>\<close>. A bone matrix is its three axes and its translation.
  All arithmetic is exact (real numbers): rounding of the host's floats is not modelled.
\<close>

type_synonym vec = "complex \<times> real"

datatype matrix = Matrix (axis_x: vec) (axis_y: vec) (axis_z: vec) (translation: vec)

definition radians :: "real \<Rightarrow> real" where
  "radians d = d * pi / 180"

definition rot_z_vec :: "real \<Rightarrow> vec \<Rightarrow> vec" where
  "rot_z_vec a v = (cis a * fst v, snd v)"

definition rot_z :: "real \<Rightarrow> matrix \<Rightarrow> matrix" where
  "rot_z a m = Matrix (rot_z_vec a (axis_x m)) (rot_z_vec a (axis_y m))
                      (rot_z_vec a (axis_z m)) (rot_z_vec a (translation m))"

text \<open>A pose assigns a matrix (in armature space) to bone names.\<close>

type_synonym pose = "(string \<times> matrix) list"

datatype object_type = ARMATURE | MESH | EMPTY | CAMERA | LIGHT

datatype constraint_type = COPY_ROTATION | COPY_LOCATION

record constraint =
  ctype :: constraint_type
  target :: "nat option"
  subtarget :: string
  influence :: real

record pose_bone =
  bone_name :: string
  constraints :: "constraint list"

record strip =
  strip_name :: string
  strip_start :: int
  strip_action :: nat

record track =
  track_name :: string
  strips :: "strip list"

record anim_data =
  action :: "nat option"
  nla_tracks :: "track list"

text \<open>
  An action: the frame range its keyframes span, and the value of its curves at every
  integer frame. Frame numbers are integers, so Python's \<^verbatim>\<open>int(...)\<close> on a frame
  number is the identity.
\<close>

record action_rec =
  frame_range :: "int \<times> int"
  fcurves :: "int \<Rightarrow> pose"

text \<open>
  An object: \<open>data\<close> is the armature's rest pose per bone, \<open>pose_bones\<close> its pose
  bones with their constraints. Of the placement only the Z Euler angle is kept.
\<close>

record object_rec =
  name :: string
  otype :: object_type
  data :: "(string \<times> matrix) list"
  pose_bones :: "pose_bone list"
  rotation_euler_z :: real
  animation_data :: "anim_data option"

datatype mode = OBJECT | POSE

record scene =
  objects :: "object_rec option list"
  actions :: "action_rec option list"
  collection :: "nat list"
  selected :: "nat list"
  active_object :: "nat option"
  mode :: mode
  popups :: "(string \<times> string) list"

datatype error = AttributeError | RuntimeError

text \<open>
  The script either runs to its end or stops at an uncaught exception; in both cases
  the scene it leaves behind is kept.
\<close>

datatype outcome = Done scene | Raised error scene

fun scene_of :: "outcome \<Rightarrow> scene" where
  "scene_of (Done s) = s"
| "scene_of (Raised e s) = s"

fun is_Done :: "outcome \<Rightarrow> bool" where
  "is_Done (Done s) = True"
| "is_Done (Raised e s) = False"

definition lookup :: "'a option list \<Rightarrow> nat \<Rightarrow> 'a option" where
  "lookup xs i = (if i < length xs then xs ! i else None)"

definition update_object :: "nat \<Rightarrow> (object_rec \<Rightarrow> object_rec) \<Rightarrow> scene \<Rightarrow> scene" where
  "update_object i f s =
     (case lookup (objects s) i of
        None \<Rightarrow> s
      | Some ob \<Rightarrow> s\<lparr>objects := (objects s)[i := Some (f ob)]\<rparr>)"

text \<open>Python's \<^verbatim>\<open>str\<close> on an integer.\<close>

fun digits :: "nat \<Rightarrow> string" where
  "digits n = (if n < 10 then [char_of (48 + n)]
               else digits (n div 10) @ [char_of (48 + n mod 10)])"

declare digits.simps [simp del]

definition str :: "int \<Rightarrow> string" where
  "str i = (if i < 0 then CHR ''-'' # digits (nat (- i)) else digits (nat i))"


section \<open>The host's pose evaluation and bake operator\<close>

text \<open>
  Modelled from the spec: the evaluation of poses and of copy constraints, visual keying
  and the writing of keys are the host's (the spec's Sampler) and are not in the
  repository. The definitions of this section follow the spec's contract of the Sampler
  and the documented behaviour of the operators the script calls, for the flags the
  script passes.
\<close>

text \<open>
  The pose of an object at a frame, before constraints: the value of the curves of its
  current action where they key the bone, the rest matrix of the armature data
  otherwise. (A pose bone always has its bone in the armature data; the identity
  default is not reached for such objects. Strips of the NLA are not evaluated.)
\<close>

definition identity :: matrix where
  "identity = Matrix (1, 0) (\<i>, 0) (0, 1) (0, 0)"

definition animated_pose :: "scene \<Rightarrow> object_rec \<Rightarrow> int \<Rightarrow> pose" where
  "animated_pose s ob f =
     (case animation_data ob of
        None \<Rightarrow> []
      | Some ad \<Rightarrow>
          (case action ad of
             None \<Rightarrow> []
           | Some a \<Rightarrow>
               (case lookup (actions s) a of
                  None \<Rightarrow> []
                | Some act \<Rightarrow> fcurves act f)))"

definition bone_matrix :: "scene \<Rightarrow> object_rec \<Rightarrow> string \<Rightarrow> int \<Rightarrow> matrix" where
  "bone_matrix s ob n f =
     (case map_of (animated_pose s ob f) n of
        Some m \<Rightarrow> m
      | None \<Rightarrow> (case map_of (data ob) n of Some r \<Rightarrow> r | None \<Rightarrow> identity))"

text \<open>World space: the object's placement (its rotation about Z) applied to the bone.\<close>

definition bone_world :: "scene \<Rightarrow> object_rec \<Rightarrow> string \<Rightarrow> int \<Rightarrow> matrix" where
  "bone_world s ob n f = rot_z (rotation_euler_z ob) (bone_matrix s ob n f)"

text \<open>
  A copy constraint of influence 1 replaces the rotation (the three axes) or the location
  of the owner's world matrix by that of the target's bone. A constraint without a
  valid target does nothing; blending at an influence other than 1 is not modelled (the
  script only ever sets 1.0). The target's bone is evaluated from its animation.
\<close>

definition apply_constraint :: "scene \<Rightarrow> int \<Rightarrow> constraint \<Rightarrow> matrix \<Rightarrow> matrix" where
  "apply_constraint s f c w =
     (case target c of
        None \<Rightarrow> w
      | Some t \<Rightarrow>
          (case lookup (objects s) t of
             None \<Rightarrow> w
           | Some tob \<Rightarrow>
               if subtarget c \<notin> set (map bone_name (pose_bones tob)) \<or> influence c \<noteq> 1 then w
               else let tw = bone_world s tob (subtarget c) f in
                 (case ctype c of
                    COPY_ROTATION \<Rightarrow> Matrix (axis_x tw) (axis_y tw) (axis_z tw) (translation w)
                  | COPY_LOCATION \<Rightarrow> Matrix (axis_x w) (axis_y w) (axis_z w) (translation tw))))"

text \<open>
  Visual keying: the matrix a bone ends up with after its constraint stack, read back
  in the space of its own armature object.
\<close>

definition visual_matrix :: "scene \<Rightarrow> object_rec \<Rightarrow> pose_bone \<Rightarrow> int \<Rightarrow> matrix" where
  "visual_matrix s ob pb f =
     rot_z (- rotation_euler_z ob)
       (fold (apply_constraint s f) (constraints pb) (bone_world s ob (bone_name pb) f))"

definition visual_pose :: "scene \<Rightarrow> nat \<Rightarrow> int \<Rightarrow> pose" where
  "visual_pose s i f =
     (case lookup (objects s) i of
        None \<Rightarrow> []
      | Some ob \<Rightarrow> map (\<lambda>pb. (bone_name pb, visual_matrix s ob pb f)) (pose_bones ob))"

text \<open>
  Writing the sampled frames into an action. A new action spans the sampled frames and
  holds its end values outside them; an existing action keeps its other keys, and its
  range grows to include the sampled frames.
\<close>

definition write_keys :: "(int \<times> pose) list \<Rightarrow> action_rec option \<Rightarrow> action_rec" where
  "write_keys info old =
     (let lo = fst (hd info); hi = fst (last info) in
      case old of
        None \<Rightarrow>
          \<lparr>frame_range = (lo, hi),
           fcurves = (\<lambda>f. case map_of info (max lo (min hi f)) of Some p \<Rightarrow> p | None \<Rightarrow> [])\<rparr>
      | Some a \<Rightarrow>
          \<lparr>frame_range = (min (fst (frame_range a)) lo, max (snd (frame_range a)) hi),
           fcurves = (\<lambda>f. case map_of info f of Some p \<Rightarrow> p | None \<Rightarrow> fcurves a f)\<rparr>)"

text \<open>
  Baking one object with \<^verbatim>\<open>use_current_action = True\<close> and
  \<^verbatim>\<open>clear_constraints = True\<close>: animation data is created when missing, the keys go
  into the object's current action when it has one and into a new action otherwise, and
  the constraints of its pose bones are removed.
\<close>

definition bake_object :: "nat \<Rightarrow> (int \<times> pose) list \<Rightarrow> scene \<Rightarrow> scene" where
  "bake_object i info s =
     (case lookup (objects s) i of
        None \<Rightarrow> s
      | Some ob \<Rightarrow>
          (let ad = (case animation_data ob of
                       None \<Rightarrow> \<lparr>action = None, nla_tracks = []\<rparr>
                     | Some ad \<Rightarrow> ad);
               a = (case action ad of None \<Rightarrow> length (actions s) | Some a \<Rightarrow> a);
               acts = (case action ad of
                         None \<Rightarrow> actions s @ [Some (write_keys info None)]
                       | Some a \<Rightarrow> (actions s)[a := Some (write_keys info (lookup (actions s) a))])
           in s\<lparr>actions := acts,
                 objects := (objects s)[i := Some (ob
                   \<lparr>pose_bones := map (\<lambda>pb. pb\<lparr>constraints := []\<rparr>) (pose_bones ob),
                    animation_data := Some (ad\<lparr>action := Some a\<rparr>)\<rparr>)]\<rparr>))"

text \<open>
  The operator bakes the selected objects that have a pose, which the script relies on:
  it never names the object to bake, it selects it (line 96), as it does for
  \<^verbatim>\<open>bpy.ops.object.delete\<close> (lines 123 to 125).
\<close>

definition bake_targets :: "scene \<Rightarrow> nat list" where
  "bake_targets s =
     filter (\<lambda>i. case lookup (objects s) i of
                   None \<Rightarrow> False
                 | Some ob \<Rightarrow> otype ob = ARMATURE) (selected s)"

definition bake_all :: "(nat \<times> (int \<times> pose) list) list \<Rightarrow> scene \<Rightarrow> scene" where
  "bake_all samples s = fold (\<lambda>(i, info). bake_object i info) samples s"

text \<open>
  Modelled from the spec: the bake operator \<^verbatim>\<open>bpy.ops.nla.bake\<close> belongs to the
  host and is not in the repository. It samples every integer frame from
  \<open>frame_start\<close> to \<open>frame_end\<close>, both included, all objects first, and then writes
  the keys; on an empty range it fails (the spec's \<open>EmptyRange\<close>).
\<close>

definition nla_bake :: "int \<Rightarrow> int \<Rightarrow> scene \<Rightarrow> error + scene" where
  "nla_bake frame_start frame_end s =
     (if frame_end < frame_start then Inl RuntimeError
      else
        let frames = [frame_start..frame_end];
            samples = map (\<lambda>i. (i, map (\<lambda>f. (f, visual_pose s i f)) frames)) (bake_targets s)
        in Inr (bake_all samples s))"


section \<open>The script\<close>

text \<open>Lines 32 to 36: the pop-up, kept as a title and a message.\<close>

definition show_error_message :: "string \<Rightarrow> scene \<Rightarrow> scene" where
  "show_error_message message s = s\<lparr>popups := popups s @ [(''Error'', message)]\<rparr>"

text \<open>
  Lines 45 to 56: two copies of the selected object, named and linked to the collection.
  A copy has every field of the object it copies, so it refers to the same action; the
  copies get the next two free indices.
\<close>

definition duplicate :: "object_rec \<Rightarrow> scene \<Rightarrow> scene" where
  "duplicate parent s =
     (let b = length (objects s); u = Suc b in
      s\<lparr>objects := objects s @ [Some (parent\<lparr>name := ''Bake'', data := data parent\<rparr>),
                                 Some (parent\<lparr>name := ''Updated'', data := data parent\<rparr>)],
        collection := collection s @ [b, u]\<rparr>)"

text \<open>\<^verbatim>\<open>nla_tracks.new()\<close> followed by the assignment of the track's name.\<close>

definition new_track :: "nat \<Rightarrow> string \<Rightarrow> scene \<Rightarrow> scene" where
  "new_track u nm s =
     update_object u (\<lambda>ob. ob\<lparr>animation_data :=
        map_option (\<lambda>ad. ad\<lparr>nla_tracks := nla_tracks ad @ [\<lparr>track_name = nm, strips = []\<rparr>]\<rparr>)
          (animation_data ob)\<rparr>) s"

text \<open>\<^verbatim>\<open>track.strips.new(name, start, action)\<close> on the track just made.\<close>

definition new_strip :: "nat \<Rightarrow> string \<Rightarrow> int \<Rightarrow> nat \<Rightarrow> scene \<Rightarrow> scene" where
  "new_strip u nm start a s =
     update_object u (\<lambda>ob. ob\<lparr>animation_data :=
        map_option (\<lambda>ad. ad\<lparr>nla_tracks :=
            (case rev (nla_tracks ad) of
               [] \<Rightarrow> []
             | t # ts \<Rightarrow> rev ts @ [t\<lparr>strips := strips t @
                 [\<lparr>strip_name = nm, strip_start = start, strip_action = a\<rparr>]\<rparr>])\<rparr>)
          (animation_data ob)\<rparr>) s"

text \<open>
  Lines 70 to 87. The body of the loop puts two constraints at the end of the bone's
  stack, both aimed at the bone of the same name in the selected object \<open>p\<close>.
\<close>

definition copy_constraints :: "nat \<Rightarrow> pose_bone \<Rightarrow> pose_bone" where
  "copy_constraints p bone =
     bone\<lparr>constraints := constraints bone @
        [\<lparr>ctype = COPY_ROTATION, target = Some p,
          subtarget = bone_name bone, influence = 1\<rparr>,
         \<lparr>ctype = COPY_LOCATION, target = Some p,
          subtarget = bone_name bone, influence = 1\<rparr>]\<rparr>"

definition add_constraints :: "nat \<Rightarrow> nat \<Rightarrow> scene \<Rightarrow> scene" where
  "add_constraints b p s =
     update_object b (\<lambda>ob. ob\<lparr>pose_bones := map (copy_constraints p) (pose_bones ob)\<rparr>) s"

definition animation_data_clear :: "nat \<Rightarrow> scene \<Rightarrow> scene" where
  "animation_data_clear b s = update_object b (\<lambda>ob. ob\<lparr>animation_data := None\<rparr>) s"

definition rotate_z :: "nat \<Rightarrow> real \<Rightarrow> scene \<Rightarrow> scene" where
  "rotate_z p a s =
     update_object p (\<lambda>ob. ob\<lparr>rotation_euler_z := rotation_euler_z ob + a\<rparr>) s"

definition select_set :: "nat \<Rightarrow> scene \<Rightarrow> scene" where
  "select_set i s = (if i \<in> set (selected s) then s else s\<lparr>selected := selected s @ [i]\<rparr>)"

definition mode_set :: "mode \<Rightarrow> scene \<Rightarrow> scene" where
  "mode_set m s = s\<lparr>mode := m\<rparr>"

definition deselect_all :: "scene \<Rightarrow> scene" where
  "deselect_all s = s\<lparr>selected := []\<rparr>"

text \<open>\<^verbatim>\<open>bpy.ops.object.delete()\<close>: every selected object leaves the scene.\<close>

definition delete_selected :: "scene \<Rightarrow> scene" where
  "delete_selected s =
     s\<lparr>objects := map (\<lambda>i. if i \<in> set (selected s) then None else objects s ! i)
                     [0..<length (objects s)],
       collection := filter (\<lambda>i. i \<notin> set (selected s)) (collection s),
       selected := []\<rparr>"

text \<open>
  Lines 59 to 63. Reading \<^verbatim>\<open>.action\<close> of missing animation data fails at line 59;
  a missing action is read without error there and fails at line 62, when its
  \<^verbatim>\<open>frame_range\<close> is read, after the track was made and named.
\<close>

definition save_original :: "nat \<Rightarrow> nat \<Rightarrow> scene \<Rightarrow> outcome" where
  "save_original p u s =
     (case Option.bind (lookup (objects s) u) animation_data of
        None \<Rightarrow> Raised AttributeError s
      | Some ad \<Rightarrow>
          (let pname = (case lookup (objects s) p of None \<Rightarrow> [] | Some ob \<Rightarrow> name ob);
               s' = new_track u (pname @ ''-original'') s in
           case Option.bind (action ad) (\<lambda>a. map_option (Pair a) (lookup (actions s) a)) of
             None \<Rightarrow> Raised AttributeError s'
           | Some (a, original_action) \<Rightarrow>
               Done (new_strip u ''original'' (fst (frame_range original_action)) a s')))"

text \<open>Line 67.\<close>

definition animation_length :: "nat \<Rightarrow> scene \<Rightarrow> int option" where
  "animation_length p s =
     Option.bind (lookup (objects s) p) (\<lambda>ob.
     Option.bind (animation_data ob) (\<lambda>ad.
     Option.bind (action ad) (\<lambda>a.
     map_option (\<lambda>act. snd (frame_range act)) (lookup (actions s) a))))"

text \<open>Lines 70 to 97: everything between reading the length and the bake.\<close>

definition prepare_bake :: "int \<Rightarrow> nat \<Rightarrow> nat \<Rightarrow> scene \<Rightarrow> scene" where
  "prepare_bake ROTATION p b s =
     mode_set POSE (select_set b (rotate_z p (radians (of_int ROTATION))
       (animation_data_clear b (add_constraints b p s))))"

text \<open>
  Lines 109 to 116. As at lines 59 to 62, missing animation data fails at once (line
  109), a missing action only when its \<^verbatim>\<open>frame_range\<close> is read (line 114), after
  the track was made and named.
\<close>

definition push_down :: "int \<Rightarrow> nat \<Rightarrow> nat \<Rightarrow> nat \<Rightarrow> scene \<Rightarrow> outcome" where
  "push_down ROTATION p b u s =
     (case Option.bind (lookup (objects s) b) animation_data of
        None \<Rightarrow> Raised AttributeError s
      | Some ad \<Rightarrow>
          (let pname = (case lookup (objects s) p of None \<Rightarrow> [] | Some ob \<Rightarrow> name ob);
               s1 = new_track u (pname @ ''-'' @ str ROTATION) s in
           case Option.bind (action ad) (\<lambda>a. map_option (Pair a) (lookup (actions s) a)) of
             None \<Rightarrow> Raised AttributeError s1
           | Some (a, rotated_action) \<Rightarrow>
               (let s2 = new_strip u (str ROTATION) (fst (frame_range rotated_action)) a s1
                in Done (update_object u (\<lambda>ob. ob\<lparr>animation_data :=
                      map_option (\<lambda>ad. ad\<lparr>action := None\<rparr>) (animation_data ob)\<rparr>) s2))))"

text \<open>Lines 119 to 128.\<close>

definition finish :: "int \<Rightarrow> nat \<Rightarrow> nat \<Rightarrow> nat \<Rightarrow> scene \<Rightarrow> scene" where
  "finish ROTATION p b u s =
     (let s1 = rotate_z p (radians (of_int (- ROTATION))) (mode_set OBJECT s);
          s2 = delete_selected (select_set b (deselect_all s1));
          pname = (case lookup (objects s2) p of None \<Rightarrow> [] | Some ob \<Rightarrow> name ob)
      in update_object u (\<lambda>ob. ob\<lparr>name := pname @ ''-updated''\<rparr>) s2)"

text \<open>
  Lines 42 to 97 for the selected object \<open>p\<close>: either an exception, or the
  length read at line 67 and the scene in which the bake operator is called.
\<close>

definition before_bake ::
  "int \<Rightarrow> nat \<Rightarrow> object_rec \<Rightarrow> scene \<Rightarrow> error \<times> scene + int \<times> scene" where
  "before_bake ROTATION p parent s =
     (let b = length (objects s); u = Suc b in
      case save_original p u (duplicate parent s) of
        Raised e s1 \<Rightarrow> Inl (e, s1)
      | Done s1 \<Rightarrow>
          (case animation_length p s1 of
             None \<Rightarrow> Inl (AttributeError, s1)
           | Some len \<Rightarrow> Inr (len, prepare_bake ROTATION p b s1)))"

text \<open>The \<^verbatim>\<open>else\<close> branch, lines 42 to 128.\<close>

definition run_armature :: "int \<Rightarrow> nat \<Rightarrow> object_rec \<Rightarrow> scene \<Rightarrow> outcome" where
  "run_armature ROTATION p parent s =
     (let b = length (objects s); u = Suc b in
      case before_bake ROTATION p parent s of
        Inl (e, s1) \<Rightarrow> Raised e s1
      | Inr (len, s2) \<Rightarrow>
          (case nla_bake 1 len s2 of
             Inl e \<Rightarrow> Raised e s2
           | Inr s3 \<Rightarrow>
               (case push_down ROTATION p b u s3 of
                  Raised e s4 \<Rightarrow> Raised e s4
                | Done s4 \<Rightarrow> Done (finish ROTATION p b u s4))))"

text \<open>The whole script, lines 27 to 128, with the constant \<^verbatim>\<open>ROTATION\<close> as a parameter.\<close>

definition run :: "int \<Rightarrow> scene \<Rightarrow> outcome" where
  "run ROTATION s =
     (case Option.bind (active_object s) (lookup (objects s)) of
        None \<Rightarrow> Raised AttributeError s
      | Some parent_armature_obj \<Rightarrow>
          if otype parent_armature_obj \<noteq> ARMATURE
          then Done (show_error_message ''The selected object is not an armature.'' s)
          else (case active_object s of
                  None \<Rightarrow> Raised AttributeError s
                | Some p \<Rightarrow> run_armature ROTATION p parent_armature_obj s))"


section \<open>Reading a scene\<close>

text \<open>
  Python references never dangle: every selected index denotes a slot of the object
  store. The two copies therefore get indices that are not selected.
\<close>

definition selection_valid :: "scene \<Rightarrow> bool" where
  "selection_valid s = (\<forall>i \<in> set (selected s). i < length (objects s))"

text \<open>
  The situation of the \<^verbatim>\<open>else\<close> branch in which nothing is missing: the active
  object \<open>p\<close> is the armature \<open>parent\<close>, with animation data \<open>ad\<close> whose current
  action is stored at \<open>a\<close> as \<open>act\<close>.
\<close>

definition animated_armature ::
  "scene \<Rightarrow> nat \<Rightarrow> object_rec \<Rightarrow> anim_data \<Rightarrow> nat \<Rightarrow> action_rec \<Rightarrow> bool" where
  "animated_armature s p parent ad a act =
     (active_object s = Some p \<and> lookup (objects s) p = Some parent \<and>
      otype parent = ARMATURE \<and> animation_data parent = Some ad \<and>
      action ad = Some a \<and> lookup (actions s) a = Some act \<and> selection_valid s)"

definition placement :: "scene \<Rightarrow> nat \<Rightarrow> real option" where
  "placement s i = map_option rotation_euler_z (lookup (objects s) i)"

text \<open>An object is in the scene: it exists and is linked to the collection.\<close>

definition linked :: "scene \<Rightarrow> nat \<Rightarrow> bool" where
  "linked s i = (lookup (objects s) i \<noteq> None \<and> i \<in> set (collection s))"

definition tracks_of :: "scene \<Rightarrow> nat \<Rightarrow> track list" where
  "tracks_of s i =
     (case Option.bind (lookup (objects s) i) animation_data of
        None \<Rightarrow> []
      | Some ad \<Rightarrow> nla_tracks ad)"

text \<open>The action held by the strip of the last track of an object: the newest archive.\<close>

definition archived_index :: "scene \<Rightarrow> nat \<Rightarrow> nat option" where
  "archived_index s i =
     (case rev (tracks_of s i) of
        [] \<Rightarrow> None
      | t # ts \<Rightarrow> (case strips t of [] \<Rightarrow> None | st # sts \<Rightarrow> Some (strip_action st)))"

definition archived_action :: "scene \<Rightarrow> nat \<Rightarrow> action_rec option" where
  "archived_action s i = Option.bind (archived_index s i) (lookup (actions s))"

text \<open>The two tracks the script is meant to leave, written out.\<close>

definition original_track :: "object_rec \<Rightarrow> nat \<Rightarrow> action_rec \<Rightarrow> track" where
  "original_track parent a act =
     \<lparr>track_name = name parent @ ''-original'',
      strips = [\<lparr>strip_name = ''original'', strip_start = fst (frame_range act),
                 strip_action = a\<rparr>]\<rparr>"

definition rotated_track :: "int \<Rightarrow> object_rec \<Rightarrow> nat \<Rightarrow> int \<Rightarrow> track" where
  "rotated_track ROTATION parent a start =
     \<lparr>track_name = name parent @ ''-'' @ str ROTATION,
      strips = [\<lparr>strip_name = str ROTATION, strip_start = start, strip_action = a\<rparr>]\<rparr>"

text \<open>
  The pose of the selected armature at a frame, every bone turned about Z by the
  script's angle.
\<close>

definition rotated_pose :: "int \<Rightarrow> scene \<Rightarrow> object_rec \<Rightarrow> int \<Rightarrow> pose" where
  "rotated_pose ROTATION s parent f =
     map (\<lambda>pb. (bone_name pb,
            rot_z (radians (of_int ROTATION)) (bone_matrix s parent (bone_name pb) f)))
       (pose_bones parent)"



definition baked_info :: "int \<Rightarrow> scene \<Rightarrow> object_rec \<Rightarrow> int \<Rightarrow> (int \<times> pose) list" where
  "baked_info ROTATION s parent len = map (\<lambda>f. (f, rotated_pose ROTATION s parent f)) [1..len]"

text \<open>Closed forms of the scenes after line 63 and after line 97.\<close>

definition bake_copy :: "nat \<Rightarrow> object_rec \<Rightarrow> object_rec" where
  "bake_copy p parent =
     parent\<lparr>name := ''Bake'', pose_bones := map (copy_constraints p) (pose_bones parent),
            animation_data := None\<rparr>"

definition updated_copy :: "object_rec \<Rightarrow> track list \<Rightarrow> object_rec" where
  "updated_copy parent ts =
     parent\<lparr>name := ''Updated'',
       animation_data :=
         map_option (\<lambda>ad. ad\<lparr>nla_tracks := nla_tracks ad @ ts\<rparr>) (animation_data parent)\<rparr>"

definition saved :: "object_rec \<Rightarrow> nat \<Rightarrow> action_rec \<Rightarrow> scene \<Rightarrow> scene" where
  "saved parent a act s =
     s\<lparr>objects := objects s @
          [Some (parent\<lparr>name := ''Bake''\<rparr>),
           Some (updated_copy parent [original_track parent a act])],
       collection := collection s @ [length (objects s), Suc (length (objects s))]\<rparr>"

definition prepared :: "int \<Rightarrow> nat \<Rightarrow> object_rec \<Rightarrow> nat \<Rightarrow> action_rec \<Rightarrow> scene \<Rightarrow> scene" where
  "prepared ROTATION p parent a act s =
     s\<lparr>objects := (objects s)
            [p := Some (parent\<lparr>rotation_euler_z :=
                     rotation_euler_z parent + radians (of_int ROTATION)\<rparr>)] @
          [Some (bake_copy p parent),
           Some (updated_copy parent [original_track parent a act])],
       collection := collection s @ [length (objects s), Suc (length (objects s))],
       selected := selected s @ [length (objects s)],
       mode := POSE\<rparr>"



subsection \<open>Example scenes\<close>

text \<open>
  One armature with the bones \<open>root\<close> and \<open>hip\<close>; its action keys \<open>root\<close>, which
  moves along Y, and a bone \<open>tail\<close> that the armature does not have.
\<close>

definition example_action :: "int \<Rightarrow> int \<Rightarrow> action_rec" where
  "example_action f0 f1 =
     \<lparr>frame_range = (f0, f1),
      fcurves = (\<lambda>f. [(''root'', Matrix (1, 0) (\<i>, 0) (0, 1) (\<i> * of_int f, 0)),
                      (''tail'', Matrix (1, 0) (\<i>, 0) (0, 1) (0, 0))])\<rparr>"

definition example_data :: anim_data where
  "example_data = \<lparr>action = Some 0, nla_tracks = []\<rparr>"

definition example_armature :: "anim_data option \<Rightarrow> object_rec" where
  "example_armature anim =
     \<lparr>name = ''Armature'', otype = ARMATURE,
      data = [(''root'', identity), (''hip'', identity)],
      pose_bones = [\<lparr>bone_name = ''root'', constraints = []\<rparr>,
                    \<lparr>bone_name = ''hip'', constraints = []\<rparr>],
      rotation_euler_z = 0,
      animation_data = anim\<rparr>"

definition example_scene :: "int \<Rightarrow> int \<Rightarrow> nat list \<Rightarrow> scene" where
  "example_scene f0 f1 sel =
     \<lparr>objects = [Some (example_armature (Some example_data))],
      actions = [Some (example_action f0 f1)],
      collection = [0], selected = sel, active_object = Some 0, mode = OBJECT, popups = []\<rparr>"

definition bare_scene :: "anim_data option \<Rightarrow> scene" where
  "bare_scene anim =
     \<lparr>objects = [Some (example_armature anim)], actions = [],
      collection = [0], selected = [0], active_object = Some 0, mode = OBJECT, popups = []\<rparr>"

definition mesh_scene :: scene where
  "mesh_scene =
     \<lparr>objects = [Some \<lparr>name = ''Cube'', otype = MESH, data = [], pose_bones = [],
                         rotation_euler_z = 0, animation_data = None\<rparr>],
      actions = [], collection = [0], selected = [0], active_object = Some 0,
      mode = OBJECT, popups = []\<rparr>"


section \<open>Auxiliary facts\<close>

lemma lookup_append [simp]:
  "lookup (xs @ ys) i = (if i < length xs then lookup xs i else lookup ys (i - length xs))"
  by (auto simp: lookup_def nth_append)

lemma lookup_Cons_0 [simp]: "lookup (x # xs) 0 = x"
  by (simp add: lookup_def)

lemma lookup_Cons_Suc [simp]: "lookup (x # xs) (Suc i) = lookup xs i"
  by (simp add: lookup_def)

lemma lookup_Nil [simp]: "lookup [] i = None"
  by (simp add: lookup_def)

lemma lookup_update [simp]:
  "lookup (xs[i := Some v]) j = (if j = i \<and> i < length xs then Some v else lookup xs j)"
  by (auto simp: lookup_def)

lemma lookup_Some_less: "lookup xs i = Some v \<Longrightarrow> i < length xs"
  by (auto simp: lookup_def split: if_splits)

lemma lookup_length [simp]: "lookup xs (length xs) = None"
  by (simp add: lookup_def)

lemma objects_update_object:
  "lookup (objects (update_object i f s)) j =
     (if j = i then map_option f (lookup (objects s) i) else lookup (objects s) j)"
  by (auto simp: update_object_def split: option.splits dest: lookup_Some_less)

lemma length_update_object [simp]:
  "length (objects (update_object i f s)) = length (objects s)"
  by (simp add: update_object_def split: option.splits)

lemma update_object_fields [simp]:
  "actions (update_object i f s) = actions s"
  "collection (update_object i f s) = collection s"
  "selected (update_object i f s) = selected s"
  "active_object (update_object i f s) = active_object s"
  "mode (update_object i f s) = mode s"
  "popups (update_object i f s) = popups s"
  by (simp_all add: update_object_def split: option.splits)

lemma rot_z_rot_z [simp]: "rot_z a (rot_z b m) = rot_z (a + b) m"
  by (cases m) (simp add: rot_z_def rot_z_vec_def cis_mult mult.assoc [symmetric])

lemma rot_z_0 [simp]: "rot_z 0 m = m"
  by (cases m) (simp add: rot_z_def rot_z_vec_def)


lemma bake_object_length [simp]:
  "length (objects (bake_object i info s)) = length (objects s)"
  by (simp add: bake_object_def Let_def split: option.splits)

lemma bake_object_other:
  "j \<noteq> i \<Longrightarrow> lookup (objects (bake_object i info s)) j = lookup (objects s) j"
  by (simp add: bake_object_def Let_def split: option.splits)

lemma bake_object_placement:
  "map_option rotation_euler_z (lookup (objects (bake_object i info s)) j) =
   map_option rotation_euler_z (lookup (objects s) j)"
  by (auto simp: bake_object_def Let_def split: option.splits dest: lookup_Some_less)

lemma bake_object_name:
  "map_option name (lookup (objects (bake_object i info s)) j) =
   map_option name (lookup (objects s) j)"
  by (auto simp: bake_object_def Let_def split: option.splits dest: lookup_Some_less)

lemma bake_object_actions_length:
  "length (actions s) \<le> length (actions (bake_object i info s))"
  by (simp add: bake_object_def Let_def split: option.splits)

lemma bake_object_fields [simp]:
  "collection (bake_object i info s) = collection s"
  "selected (bake_object i info s) = selected s"
  "active_object (bake_object i info s) = active_object s"
  "mode (bake_object i info s) = mode s"
  "popups (bake_object i info s) = popups s"
  by (simp_all add: bake_object_def Let_def split: option.splits)

lemma bake_all_Nil [simp]: "bake_all [] s = s"
  by (simp add: bake_all_def)

lemma bake_all_Cons [simp]: "bake_all ((i, info) # xs) s = bake_all xs (bake_object i info s)"
  by (simp add: bake_all_def)

lemma bake_all_append [simp]: "bake_all (xs @ ys) s = bake_all ys (bake_all xs s)"
  by (simp add: bake_all_def)

lemma bake_all_length [simp]: "length (objects (bake_all xs s)) = length (objects s)"
  by (induction xs arbitrary: s) auto

lemma bake_all_other:
  "j \<notin> fst ` set xs \<Longrightarrow> lookup (objects (bake_all xs s)) j = lookup (objects s) j"
  by (induction xs arbitrary: s) (auto simp: bake_object_other)

lemma bake_all_placement:
  "map_option rotation_euler_z (lookup (objects (bake_all xs s)) j) =
   map_option rotation_euler_z (lookup (objects s) j)"
  by (induction xs arbitrary: s) (auto simp: bake_object_placement)

lemma bake_all_name:
  "map_option name (lookup (objects (bake_all xs s)) j) = map_option name (lookup (objects s) j)"
  by (induction xs arbitrary: s) (auto simp: bake_object_name)

lemma bake_all_actions_length: "length (actions s) \<le> length (actions (bake_all xs s))"
proof (induction xs arbitrary: s)
  case Nil
  show ?case by simp
next
  case (Cons x xs)
  obtain i info where x: "x = (i, info)" by (cases x)
  have "length (actions s) \<le> length (actions (bake_object i info s))"
    by (rule bake_object_actions_length)
  also have "\<dots> \<le> length (actions (bake_all xs (bake_object i info s)))"
    by (rule Cons.IH)
  finally show ?case by (simp add: x)
qed

lemma bake_all_fields [simp]:
  "collection (bake_all xs s) = collection s"
  "selected (bake_all xs s) = selected s"
  "active_object (bake_all xs s) = active_object s"
  "mode (bake_all xs s) = mode s"
  "popups (bake_all xs s) = popups s"
  by (induction xs arbitrary: s) auto


lemma save_original_duplicate:
  assumes "lookup (objects s) p = Some parent" "animation_data parent = Some ad"
    "action ad = Some a" "lookup (actions s) a = Some act"
  shows "save_original p (Suc (length (objects s))) (duplicate parent s) =
         Done (saved parent a act s)"
proof -
  have p: "p < length (objects s)" using assms(1) by (rule lookup_Some_less)
  show ?thesis
    using assms p
    by (simp add: save_original_def duplicate_def Let_def new_track_def new_strip_def
        update_object_def list_update_append saved_def original_track_def updated_copy_def)
qed


lemma animation_length_saved:
  assumes "lookup (objects s) p = Some parent" "animation_data parent = Some ad"
    "action ad = Some a" "lookup (actions s) a = Some act"
  shows "animation_length p (saved parent a act s) = Some (snd (frame_range act))"
  using assms lookup_Some_less [OF assms(1)]
  by (simp add: animation_length_def saved_def)

lemma prepare_bake_saved:
  assumes "lookup (objects s) p = Some parent" "selection_valid s"
  shows "prepare_bake ROTATION p (length (objects s)) (saved parent a act s) =
         prepared ROTATION p parent a act s"
proof -
  have p: "p < length (objects s)" using assms(1) by (rule lookup_Some_less)
  have b: "length (objects s) \<notin> set (selected s)"
    using assms(2) by (auto simp: selection_valid_def)
  show ?thesis
    using assms(1) p b
    by (simp add: prepare_bake_def saved_def prepared_def add_constraints_def
        animation_data_clear_def rotate_z_def select_set_def mode_set_def
        update_object_def list_update_append bake_copy_def)
qed


lemma matrix_collapse [simp]:
  "Matrix (axis_x m) (axis_y m) (axis_z m) (translation m) = m"
  by (cases m) simp

lemma bone_matrix_cong:
  "animated_pose s ob f = animated_pose s' ob' f \<Longrightarrow> data ob = data ob' \<Longrightarrow>
   bone_matrix s ob n f = bone_matrix s' ob' n f"
  by (simp add: bone_matrix_def split: option.splits)

lemma visual_matrix_prepared:
  assumes p: "lookup (objects s) p = Some parent" and pb: "pb \<in> set (pose_bones parent)"
  shows "visual_matrix (prepared ROTATION p parent a act s)
           (bake_copy p parent) (copy_constraints p pb) f =
         rot_z (radians (of_int ROTATION)) (bone_matrix s parent (bone_name pb) f)"
proof -
  let ?s2 = "prepared ROTATION p parent a act s"
  let ?src = "parent\<lparr>rotation_euler_z := rotation_euler_z parent + radians (of_int ROTATION)\<rparr>"
  have pl: "p < length (objects s)" using p by (rule lookup_Some_less)
  have src: "lookup (objects ?s2) p = Some ?src"
    using pl by (simp add: prepared_def)
  have sub: "bone_name pb \<in> set (map bone_name (pose_bones ?src))"
    using pb by simp
  have bm: "bone_matrix ?s2 ?src (bone_name pb) f = bone_matrix s parent (bone_name pb) f"
    by (rule bone_matrix_cong) (simp_all add: animated_pose_def prepared_def split: option.splits)
  have tw: "bone_world ?s2 ?src (bone_name pb) f =
      rot_z (rotation_euler_z parent + radians (of_int ROTATION))
        (bone_matrix s parent (bone_name pb) f)"
    by (simp add: bone_world_def bm)
  have rot: "apply_constraint ?s2 f \<lparr>ctype = COPY_ROTATION, target = Some p,
                 subtarget = bone_name pb, influence = 1\<rparr> w =
       Matrix (axis_x (bone_world ?s2 ?src (bone_name pb) f))
              (axis_y (bone_world ?s2 ?src (bone_name pb) f))
              (axis_z (bone_world ?s2 ?src (bone_name pb) f)) (translation w)" for w
    using pb by (simp add: apply_constraint_def src Let_def)
  have loc: "apply_constraint ?s2 f \<lparr>ctype = COPY_LOCATION, target = Some p,
                 subtarget = bone_name pb, influence = 1\<rparr> w =
       Matrix (axis_x w) (axis_y w) (axis_z w)
              (translation (bone_world ?s2 ?src (bone_name pb) f))" for w
    using pb by (simp add: apply_constraint_def src Let_def)
  show ?thesis
    by (simp add: visual_matrix_def copy_constraints_def rot loc tw bake_copy_def)
qed

lemma visual_pose_prepared:
  assumes p: "lookup (objects s) p = Some parent"
  shows "visual_pose (prepared ROTATION p parent a act s) (length (objects s)) f =
         rotated_pose ROTATION s parent f"
proof -
  have "lookup (objects (prepared ROTATION p parent a act s)) (length (objects s)) =
        Some (bake_copy p parent)"
    by (simp add: prepared_def)
  moreover have "pose_bones (bake_copy p parent) = map (copy_constraints p) (pose_bones parent)"
    by (simp add: bake_copy_def)
  moreover have "bone_name (copy_constraints p pb) = bone_name pb" for pb
    by (simp add: copy_constraints_def)
  ultimately show ?thesis
    by (simp add: visual_pose_def rotated_pose_def comp_def visual_matrix_prepared [OF p]
        cong: map_cong)
qed


lemma nla_bake_alt:
  "nla_bake fs fe s =
     (if fe < fs then Inl RuntimeError
      else Inr (bake_all (map (\<lambda>i. (i, map (\<lambda>f. (f, visual_pose s i f)) [fs..fe])) (bake_targets s)) s))"
  by (simp add: nla_bake_def bake_all_def Let_def)

lemma prepared_lookups:
  assumes p: "lookup (objects s) p = Some parent" and ad: "animation_data parent = Some ad"
  shows "lookup (objects (prepared ROTATION p parent a act s)) (length (objects s)) =
           Some (bake_copy p parent)"
    and "lookup (objects (prepared ROTATION p parent a act s)) (Suc (length (objects s))) =
           Some (updated_copy parent [original_track parent a act])"
    and "lookup (objects (prepared ROTATION p parent a act s)) p =
           Some (parent\<lparr>rotation_euler_z := rotation_euler_z parent + radians (of_int ROTATION)\<rparr>)"
    and "length (objects (prepared ROTATION p parent a act s)) = Suc (Suc (length (objects s)))"
    and "actions (prepared ROTATION p parent a act s) = actions s"
    and "selected (prepared ROTATION p parent a act s) = selected s @ [length (objects s)]"
    and "collection (prepared ROTATION p parent a act s) =
           collection s @ [length (objects s), Suc (length (objects s))]"
  using lookup_Some_less [OF p] ad
  by (simp_all add: prepared_def bake_copy_def updated_copy_def)

lemma bake_targets_prepared:
  assumes p: "lookup (objects s) p = Some parent" and ad: "animation_data parent = Some ad"
    and arm: "otype parent = ARMATURE" and sel: "selection_valid s"
  shows "\<exists>ts. bake_targets (prepared ROTATION p parent a act s) = ts @ [length (objects s)]
           \<and> (\<forall>i \<in> set ts. i < length (objects s))"
proof -
  let ?s2 = "prepared ROTATION p parent a act s"
  let ?P = "\<lambda>i. case lookup (objects ?s2) i of None \<Rightarrow> False | Some ob \<Rightarrow> otype ob = ARMATURE"
  have "bake_targets ?s2 = filter ?P (selected s) @ [length (objects s)]"
    using arm by (simp add: bake_targets_def prepared_lookups [OF p ad] bake_copy_def)
  moreover have "\<forall>i \<in> set (filter ?P (selected s)). i < length (objects s)"
    using sel by (auto simp: selection_valid_def)
  ultimately show ?thesis by blast
qed

lemma bake_object_fresh:
  assumes "lookup (objects s) b = Some ob" "animation_data ob = None"
  shows "bake_object b info s =
         s\<lparr>actions := actions s @ [Some (write_keys info None)],
           objects := (objects s)[b := Some (ob
              \<lparr>pose_bones := map (\<lambda>pb. pb\<lparr>constraints := []\<rparr>) (pose_bones ob),
               animation_data := Some \<lparr>action = Some (length (actions s)), nla_tracks = []\<rparr>\<rparr>)]\<rparr>"
  using assms by (simp add: bake_object_def Let_def)

lemma nla_bake_prepared:
  assumes p: "lookup (objects s) p = Some parent" and ad: "animation_data parent = Some ad"
    and arm: "otype parent = ARMATURE" and sel: "selection_valid s" and len: "1 \<le> len"
  shows "\<exists>sp. nla_bake 1 len (prepared ROTATION p parent a act s) =
            Inr (bake_object (length (objects s)) (baked_info ROTATION s parent len) sp)
          \<and> lookup (objects sp) (length (objects s)) = Some (bake_copy p parent)
          \<and> lookup (objects sp) (Suc (length (objects s))) =
              Some (updated_copy parent [original_track parent a act])
          \<and> map_option rotation_euler_z (lookup (objects sp) p) =
              Some (rotation_euler_z parent + radians (of_int ROTATION))
          \<and> map_option name (lookup (objects sp) p) = Some (name parent)
          \<and> length (objects sp) = Suc (Suc (length (objects s)))
          \<and> length (actions s) \<le> length (actions sp)
          \<and> collection sp = collection s @ [length (objects s), Suc (length (objects s))]"
proof -
  let ?s2 = "prepared ROTATION p parent a act s"
  let ?b = "length (objects s)"
  let ?sample = "\<lambda>i. (i, map (\<lambda>f. (f, visual_pose ?s2 i f)) [1..len])"
  obtain ts where ts: "bake_targets ?s2 = ts @ [?b]" and lt: "\<forall>i \<in> set ts. i < ?b"
    using bake_targets_prepared [OF p ad arm sel] by blast
  define sp where "sp = bake_all (map ?sample ts) ?s2"
  have notin: "?b \<notin> fst ` set (map ?sample ts)" "Suc ?b \<notin> fst ` set (map ?sample ts)"
    using lt by auto
  have info: "?sample ?b = (?b, baked_info ROTATION s parent len)"
    by (simp add: baked_info_def visual_pose_prepared [OF p])
  have "nla_bake 1 len ?s2 = Inr (bake_object ?b (baked_info ROTATION s parent len) sp)"
    using len by (simp add: nla_bake_alt ts sp_def info del: upto.simps)
  moreover have "lookup (objects sp) ?b = Some (bake_copy p parent)"
    unfolding sp_def by (simp only: bake_all_other [OF notin(1)] prepared_lookups [OF p ad])
  moreover have "lookup (objects sp) (Suc ?b) = Some (updated_copy parent [original_track parent a act])"
    unfolding sp_def by (simp only: bake_all_other [OF notin(2)] prepared_lookups [OF p ad])
  moreover have "map_option rotation_euler_z (lookup (objects sp) p) =
              Some (rotation_euler_z parent + radians (of_int ROTATION))"
    unfolding sp_def by (simp add: bake_all_placement prepared_lookups [OF p ad])
  moreover have "map_option name (lookup (objects sp) p) = Some (name parent)"
    unfolding sp_def by (simp add: bake_all_name prepared_lookups [OF p ad])
  moreover have "length (objects sp) = Suc (Suc ?b)"
    unfolding sp_def by (simp add: prepared_lookups [OF p ad])
  moreover have "length (actions s) \<le> length (actions sp)"
    unfolding sp_def using bake_all_actions_length [of ?s2 "map ?sample ts"]
    by (simp add: prepared_lookups [OF p ad])
  moreover have "collection sp = collection s @ [?b, Suc ?b]"
    unfolding sp_def by (simp add: prepared_lookups [OF p ad])
  ultimately show ?thesis by blast
qed


lemma delete_selected_lookup:
  "lookup (objects (delete_selected s)) j =
     (if j \<in> set (selected s) then None else lookup (objects s) j)"
  by (simp add: delete_selected_def lookup_def)

lemma delete_selected_fields [simp]:
  "actions (delete_selected s) = actions s"
  "collection (delete_selected s) = filter (\<lambda>i. i \<notin> set (selected s)) (collection s)"
  by (simp_all add: delete_selected_def)

lemma push_down_baked:
  assumes b: "lookup (objects sp) b = Some bk" and bn: "animation_data bk = None"
    and u: "lookup (objects sp) u = Some (updated_copy parent [t1])"
    and ad: "animation_data parent = Some ad"
    and pn: "map_option name (lookup (objects sp) p) = Some (name parent)"
    and ub: "u \<noteq> b"
  shows "\<exists>s4. push_down ROTATION p b u (bake_object b info sp) = Done s4
     \<and> lookup (objects s4) u = Some (parent\<lparr>name := ''Updated'',
            animation_data := Some (ad\<lparr>action := None, nla_tracks := nla_tracks ad @
              [t1, rotated_track ROTATION parent (length (actions sp))
                     (fst (frame_range (write_keys info None)))]\<rparr>)\<rparr>)
     \<and> (\<forall>j. j \<noteq> u \<longrightarrow> lookup (objects s4) j = lookup (objects (bake_object b info sp)) j)
     \<and> actions s4 = actions sp @ [Some (write_keys info None)]
     \<and> collection s4 = collection sp \<and> length (objects s4) = length (objects sp)"
proof -
  let ?sb = "bake_object b info sp"
  have bl: "b < length (objects sp)" and ul: "u < length (objects sp)"
    using b u by (auto dest: lookup_Some_less)
  have sb: "?sb = sp\<lparr>actions := actions sp @ [Some (write_keys info None)],
           objects := (objects sp)[b := Some (bk
              \<lparr>pose_bones := map (\<lambda>pb. pb\<lparr>constraints := []\<rparr>) (pose_bones bk),
               animation_data := Some \<lparr>action = Some (length (actions sp)), nla_tracks = []\<rparr>\<rparr>)]\<rparr>"
    by (rule bake_object_fresh [OF b bn])
  have lb: "lookup (objects ?sb) b = Some (bk
              \<lparr>pose_bones := map (\<lambda>pb. pb\<lparr>constraints := []\<rparr>) (pose_bones bk),
               animation_data := Some \<lparr>action = Some (length (actions sp)), nla_tracks = []\<rparr>\<rparr>)"
    using bl by (simp add: sb)
  have lu: "lookup (objects ?sb) u = Some (updated_copy parent [t1])"
    using ub u by (simp add: bake_object_other)
  have la: "lookup (actions ?sb) (length (actions sp)) = Some (write_keys info None)"
    by (simp add: sb)
  have pname: "(case lookup (objects ?sb) p of None \<Rightarrow> [] | Some ob \<Rightarrow> name ob) = name parent"
    using pn bake_object_name [of b info sp p] by (auto split: option.splits)
  show ?thesis
    apply (simp add: push_down_def lb la pname Let_def)
    apply (simp add: objects_update_object new_track_def new_strip_def lu updated_copy_def ad
        rotated_track_def)
    apply (simp add: sb)
    done
qed


lemma finish_lookups:
  assumes pb: "p \<noteq> b" and pu: "p \<noteq> u" and ub: "u \<noteq> b"
    and pn: "map_option name (lookup (objects s4) p) = Some pname"
  shows "lookup (objects (finish ROTATION p b u s4)) b = None"
    and "lookup (objects (finish ROTATION p b u s4)) u =
           map_option (\<lambda>ob. ob\<lparr>name := pname @ ''-updated''\<rparr>) (lookup (objects s4) u)"
    and "map_option rotation_euler_z (lookup (objects (finish ROTATION p b u s4)) p) =
           map_option (\<lambda>ob. rotation_euler_z ob + radians (of_int (- ROTATION))) (lookup (objects s4) p)"
    and "actions (finish ROTATION p b u s4) = actions s4"
    and "collection (finish ROTATION p b u s4) = filter (\<lambda>i. i \<noteq> b) (collection s4)"
    and "selected (finish ROTATION p b u s4) = []"
    and "length (objects (finish ROTATION p b u s4)) = length (objects s4)"
proof -
  define ang where "ang = radians (of_int (- ROTATION))"
  let ?s1 = "rotate_z p ang (mode_set OBJECT s4)"
  let ?s2 = "delete_selected (select_set b (deselect_all ?s1))"
  have sel: "selected (select_set b (deselect_all t)) = [b]" for t
    by (simp add: select_set_def deselect_all_def)
  have obj: "objects (select_set b (deselect_all t)) = objects t" for t
    by (simp add: select_set_def deselect_all_def)
  have l2: "lookup (objects ?s2) j = (if j = b then None else lookup (objects ?s1) j)" for j
    by (simp only: delete_selected_lookup sel obj) simp
  have l1: "lookup (objects ?s1) j =
      (if j = p then map_option (\<lambda>ob. ob\<lparr>rotation_euler_z := rotation_euler_z ob + ang\<rparr>)
                       (lookup (objects s4) p)
       else lookup (objects s4) j)" for j
    by (simp add: rotate_z_def objects_update_object mode_set_def)
  have pname: "(case lookup (objects ?s2) p of None \<Rightarrow> [] | Some ob \<Rightarrow> name ob) = pname"
    using pn pb by (auto simp: l2 l1 split: option.splits)
  have fin: "finish ROTATION p b u s4 = update_object u (\<lambda>ob. ob\<lparr>name := pname @ ''-updated''\<rparr>) ?s2"
    unfolding finish_def ang_def [symmetric] by (simp add: Let_def pname)
  show "lookup (objects (finish ROTATION p b u s4)) b = None"
    using ub by (simp add: fin objects_update_object l2)
  show "lookup (objects (finish ROTATION p b u s4)) u =
           map_option (\<lambda>ob. ob\<lparr>name := pname @ ''-updated''\<rparr>) (lookup (objects s4) u)"
    using ub pu by (simp add: fin objects_update_object l2 l1)
  show "map_option rotation_euler_z (lookup (objects (finish ROTATION p b u s4)) p) =
           map_option (\<lambda>ob. rotation_euler_z ob + radians (of_int (- ROTATION))) (lookup (objects s4) p)"
    unfolding ang_def [symmetric]
    using pb pu by (simp add: fin objects_update_object l2 l1 option.map_comp comp_def)
  show "actions (finish ROTATION p b u s4) = actions s4"
    by (simp add: fin rotate_z_def mode_set_def select_set_def deselect_all_def)
  show "collection (finish ROTATION p b u s4) = filter (\<lambda>i. i \<noteq> b) (collection s4)"
    by (simp add: fin sel rotate_z_def mode_set_def select_set_def deselect_all_def)
  show "selected (finish ROTATION p b u s4) = []"
    by (simp add: fin delete_selected_def)
  show "length (objects (finish ROTATION p b u s4)) = length (objects s4)"
    by (simp add: fin delete_selected_def select_set_def deselect_all_def rotate_z_def mode_set_def)
qed


lemma baked_info_range:
  assumes "1 \<le> len"
  shows "frame_range (write_keys (baked_info ROTATION s parent len) None) = (1, len)"
proof -
  have "[1..len] \<noteq> []" using assms by simp
  moreover have "hd [1..len] = 1" using assms by (simp add: upto_rec1)
  moreover have "last [1..len] = len" using assms by (simp add: upto_rec2)
  ultimately show ?thesis
    by (simp add: write_keys_def baked_info_def Let_def hd_map last_map del: upto.simps)
qed

lemma baked_info_fcurves:
  assumes "1 \<le> f" "f \<le> len"
  shows "fcurves (write_keys (baked_info ROTATION s parent len) None) f =
         rotated_pose ROTATION s parent f"
proof -
  have ne: "[1..len] \<noteq> []" using assms by simp
  have h: "hd [1..len] = 1" using assms by (simp add: upto_rec1)
  have l: "last [1..len] = len" using assms by (simp add: upto_rec2)
  have m: "map_of (baked_info ROTATION s parent len) f = Some (rotated_pose ROTATION s parent f)"
    using assms by (simp add: baked_info_def map_of_map_restrict del: upto.simps)
  show ?thesis
    using assms ne h l m
    by (simp add: write_keys_def Let_def baked_info_def [of ROTATION s parent len, symmetric]
        del: upto.simps)
      (simp add: baked_info_def hd_map last_map del: upto.simps)
qed


lemma before_bake_ready:
  assumes p: "lookup (objects s) p = Some parent"
    and ad: "animation_data parent = Some ad" and a: "action ad = Some a"
    and act: "lookup (actions s) a = Some act" and sel: "selection_valid s"
  shows "before_bake ROTATION p parent s =
         Inr (snd (frame_range act), prepared ROTATION p parent a act s)"
  by (simp add: before_bake_def Let_def save_original_duplicate [OF p ad a act]
      animation_length_saved [OF p ad a act] prepare_bake_saved [OF p sel])

lemma run_armature_success:
  assumes p: "lookup (objects s) p = Some parent" and arm: "otype parent = ARMATURE"
    and ad: "animation_data parent = Some ad" and a: "action ad = Some a"
    and act: "lookup (actions s) a = Some act"
    and sel: "selection_valid s" and len: "1 \<le> snd (frame_range act)"
  shows "\<exists>s' a1. run_armature ROTATION p parent s = Done s' \<and> length (actions s) \<le> a1
      \<and> lookup (actions s') a1 =
            Some (write_keys (baked_info ROTATION s parent (snd (frame_range act))) None)
      \<and> lookup (objects s') (Suc (length (objects s))) =
            Some (parent\<lparr>name := name parent @ ''-updated'',
               animation_data := Some (ad\<lparr>action := None, nla_tracks := nla_tracks ad @
                 [original_track parent a act, rotated_track ROTATION parent a1 1]\<rparr>)\<rparr>)
      \<and> lookup (objects s') (length (objects s)) = None
      \<and> length (objects s) \<notin> set (collection s')
      \<and> map_option rotation_euler_z (lookup (objects s') p) = Some (rotation_euler_z parent)
      \<and> selected s' = [] \<and> length (objects s') = Suc (Suc (length (objects s)))"
proof -
  let ?b = "length (objects s)" and ?u = "Suc (length (objects s))"
  let ?len = "snd (frame_range act)"
  let ?info = "baked_info ROTATION s parent ?len"
  have pl: "p < ?b" using p by (rule lookup_Some_less)
  obtain sp where bake: "nla_bake 1 ?len (prepared ROTATION p parent a act s) =
            Inr (bake_object ?b ?info sp)"
    and spb: "lookup (objects sp) ?b = Some (bake_copy p parent)"
    and spu: "lookup (objects sp) ?u = Some (updated_copy parent [original_track parent a act])"
    and spz: "map_option rotation_euler_z (lookup (objects sp) p) =
              Some (rotation_euler_z parent + radians (of_int ROTATION))"
    and spn: "map_option name (lookup (objects sp) p) = Some (name parent)"
    and spa: "length (actions s) \<le> length (actions sp)"
    and spl: "length (objects sp) = Suc (Suc (length (objects s)))"
    using nla_bake_prepared [OF p ad arm sel len, of ROTATION a act] by blast
  obtain s4 where push: "push_down ROTATION p ?b ?u (bake_object ?b ?info sp) = Done s4"
    and s4u: "lookup (objects s4) ?u = Some (parent\<lparr>name := ''Updated'',
            animation_data := Some (ad\<lparr>action := None, nla_tracks := nla_tracks ad @
              [original_track parent a act, rotated_track ROTATION parent (length (actions sp))
                     (fst (frame_range (write_keys ?info None)))]\<rparr>)\<rparr>)"
    and s4o: "\<forall>j. j \<noteq> ?u \<longrightarrow> lookup (objects s4) j = lookup (objects (bake_object ?b ?info sp)) j"
    and s4a: "actions s4 = actions sp @ [Some (write_keys ?info None)]"
    and s4l: "length (objects s4) = length (objects sp)"
    using push_down_baked [OF spb _ spu ad spn, of ROTATION ?info]
    by (auto simp: bake_copy_def)
  let ?s' = "finish ROTATION p ?b ?u s4"
  have s4n: "map_option name (lookup (objects s4) p) = Some (name parent)"
    using s4o pl spn by (simp add: bake_object_name)
  have s4z: "map_option rotation_euler_z (lookup (objects s4) p) =
              Some (rotation_euler_z parent + radians (of_int ROTATION))"
    using s4o pl spz by (simp add: bake_object_placement)
  have neq: "p \<noteq> ?b" "p \<noteq> ?u" "?u \<noteq> ?b" using pl by auto
  note fin = finish_lookups [OF neq s4n, of ROTATION]
  have run: "run_armature ROTATION p parent s = Done ?s'"
    by (simp add: run_armature_def Let_def before_bake_ready [OF p ad a act sel] bake push)
  have r1: "lookup (actions ?s') (length (actions sp)) = Some (write_keys ?info None)"
    by (simp add: fin s4a)
  have r2: "lookup (objects ?s') ?u =
            Some (parent\<lparr>name := name parent @ ''-updated'',
               animation_data := Some (ad\<lparr>action := None, nla_tracks := nla_tracks ad @
                 [original_track parent a act, rotated_track ROTATION parent (length (actions sp)) 1]\<rparr>)\<rparr>)"
    by (simp add: fin s4u baked_info_range [OF len])
  have r3: "lookup (objects ?s') ?b = None" by (rule fin)
  have r4: "?b \<notin> set (collection ?s')" by (simp add: fin)
  have "map_option rotation_euler_z (lookup (objects ?s') p) =
        map_option (\<lambda>z. z + radians (of_int (- ROTATION)))
          (map_option rotation_euler_z (lookup (objects s4) p))"
    by (simp add: fin option.map_comp comp_def del: of_int_minus)
  then have r5: "map_option rotation_euler_z (lookup (objects ?s') p) = Some (rotation_euler_z parent)"
    by (simp add: s4z radians_def)
  have r6: "selected ?s' = []" by (rule fin)
  have r7: "length (objects ?s') = Suc (Suc ?b)" by (simp add: fin s4l spl)
  from run spa r1 r2 r3 r4 r5 r6 r7 show ?thesis by blast
qed

lemma run_active:
  assumes "active_object s = Some p" "lookup (objects s) p = Some parent"
    "otype parent = ARMATURE"
  shows "run ROTATION s = run_armature ROTATION p parent s"
  using assms by (simp add: run_def)

lemma save_original_no_action:
  assumes p: "lookup (objects s) p = Some parent"
    and na: "animation_data parent = None \<or> (\<exists>ad. animation_data parent = Some ad \<and> action ad = None)"
  shows "\<exists>s'. save_original p (Suc (length (objects s))) (duplicate parent s) = Raised AttributeError s'
     \<and> lookup (objects s') (length (objects s)) = Some (parent\<lparr>name := ''Bake''\<rparr>)
     \<and> map_option name (lookup (objects s') (Suc (length (objects s)))) = Some ''Updated''
     \<and> collection s' = collection s @ [length (objects s), Suc (length (objects s))]"
proof -
  have pl: "p < length (objects s)" using p by (rule lookup_Some_less)
  from na show ?thesis
  proof
    assume "animation_data parent = None"
    then show ?thesis
      by (simp add: save_original_def duplicate_def Let_def)
  next
    assume "\<exists>ad. animation_data parent = Some ad \<and> action ad = None"
    then obtain ad where "animation_data parent = Some ad" "action ad = None" by blast
    then show ?thesis
      using p pl
      by (simp add: save_original_def duplicate_def Let_def new_track_def update_object_def
          list_update_append)
  qed
qed

lemma nla_bake_placement:
  "nla_bake fs fe s = Inr s3 \<Longrightarrow> placement s3 i = placement s i"
  by (auto simp: nla_bake_alt placement_def bake_all_placement split: if_splits)

lemma run_success:
  assumes ready: "animated_armature s p parent ad a act"
    and len: "1 \<le> snd (frame_range act)"
  shows "\<exists>a1. is_Done (run ROTATION s) \<and> length (actions s) \<le> a1
      \<and> lookup (actions (scene_of (run ROTATION s))) a1 =
            Some (write_keys (baked_info ROTATION s parent (snd (frame_range act))) None)
      \<and> lookup (objects (scene_of (run ROTATION s))) (Suc (length (objects s))) =
            Some (parent\<lparr>name := name parent @ ''-updated'',
               animation_data := Some (ad\<lparr>action := None, nla_tracks := nla_tracks ad @
                 [original_track parent a act, rotated_track ROTATION parent a1 1]\<rparr>)\<rparr>)
      \<and> tracks_of (scene_of (run ROTATION s)) (Suc (length (objects s))) =
            nla_tracks ad @ [original_track parent a act, rotated_track ROTATION parent a1 1]
      \<and> archived_index (scene_of (run ROTATION s)) (Suc (length (objects s))) = Some a1
      \<and> archived_action (scene_of (run ROTATION s)) (Suc (length (objects s))) =
            Some (write_keys (baked_info ROTATION s parent (snd (frame_range act))) None)
      \<and> lookup (objects (scene_of (run ROTATION s))) (length (objects s)) = None
      \<and> length (objects s) \<notin> set (collection (scene_of (run ROTATION s)))
      \<and> placement (scene_of (run ROTATION s)) p = Some (rotation_euler_z parent)
      \<and> selected (scene_of (run ROTATION s)) = []
      \<and> length (objects (scene_of (run ROTATION s))) = Suc (Suc (length (objects s)))"
proof -
  from ready have act: "active_object s = Some p" and p: "lookup (objects s) p = Some parent"
    and arm: "otype parent = ARMATURE" and ad: "animation_data parent = Some ad"
    and a: "action ad = Some a" and ac: "lookup (actions s) a = Some act"
    and sel: "selection_valid s"
    by (simp_all add: animated_armature_def)
  let ?u = "Suc (length (objects s))"
  let ?baked = "write_keys (baked_info ROTATION s parent (snd (frame_range act))) None"
  obtain s' a1 where run: "run_armature ROTATION p parent s = Done s'"
    and a1: "length (actions s) \<le> a1" "lookup (actions s') a1 = Some ?baked"
    and u: "lookup (objects s') ?u =
            Some (parent\<lparr>name := name parent @ ''-updated'',
               animation_data := Some (ad\<lparr>action := None, nla_tracks := nla_tracks ad @
                 [original_track parent a act, rotated_track ROTATION parent a1 1]\<rparr>)\<rparr>)"
    and rest: "lookup (objects s') (length (objects s)) = None"
      "length (objects s) \<notin> set (collection s')"
      "map_option rotation_euler_z (lookup (objects s') p) = Some (rotation_euler_z parent)"
      "selected s' = []" "length (objects s') = Suc (Suc (length (objects s)))"
    using run_armature_success [OF p arm ad a ac sel len, of ROTATION] by blast
  have r: "run ROTATION s = Done s'"
    by (simp add: run_active [OF act p arm] run)
  have t: "tracks_of s' ?u =
      nla_tracks ad @ [original_track parent a act, rotated_track ROTATION parent a1 1]"
    by (simp add: tracks_of_def u)
  have i: "archived_index s' ?u = Some a1"
    by (simp add: archived_index_def t rotated_track_def)
  have "archived_action s' ?u = Some ?baked"
    by (simp add: archived_action_def i a1)
  with r a1 u t i rest show ?thesis
    by (auto simp: placement_def)
qed


section \<open>The claims\<close>

text \<open>
  Claim C6. When the active object is not an armature, the script only shows the pop-up
  \<open>The selected object is not an armature.\<close> and ends normally: the scene is the
  one it started from with that message added, so no object is created, no track is
  appended and no placement changes.
\<close>

theorem C6_not_an_armature:
  assumes "active_object s = Some p" and "lookup (objects s) p = Some ob"
    and "otype ob \<noteq> ARMATURE"
  shows "run ROTATION s =
         Done (s\<lparr>popups := popups s @ [(''Error'', ''The selected object is not an armature.'')]\<rparr>)"
  using assms by (simp add: run_def show_error_message_def)

theorem C6_not_an_armature_witness:
  "active_object mesh_scene = Some 0 \<and>
   otype (the (lookup (objects mesh_scene) 0)) \<noteq> ARMATURE \<and>
   run 180 mesh_scene =
     Done (mesh_scene\<lparr>popups := [(''Error'', ''The selected object is not an armature.'')]\<rparr>)"
  using C6_not_an_armature [of mesh_scene 0 "the (lookup (objects mesh_scene) 0)" 180]
  by (simp add: mesh_scene_def)

text \<open>
  Claim C10. An armature without animation data, or without a current action, makes the
  script stop at an uncaught \<open>AttributeError\<close>. By then both copies exist and
  are linked to the collection, and they stay there: the scene left behind holds the
  copy named \<open>Bake\<close> and the copy named \<open>Updated\<close>.
\<close>

theorem C10_missing_action_fails_after_duplication:
  assumes "active_object s = Some p" and "lookup (objects s) p = Some parent"
    and "otype parent = ARMATURE"
    and "animation_data parent = None \<or>
         (\<exists>ad. animation_data parent = Some ad \<and> action ad = None)"
  shows "run ROTATION s = Raised AttributeError (scene_of (run ROTATION s)) \<and>
         lookup (objects (scene_of (run ROTATION s))) (length (objects s)) =
           Some (parent\<lparr>name := ''Bake''\<rparr>) \<and>
         map_option name (lookup (objects (scene_of (run ROTATION s))) (Suc (length (objects s)))) =
           Some ''Updated'' \<and>
         collection (scene_of (run ROTATION s)) =
           collection s @ [length (objects s), Suc (length (objects s))]"
proof -
  obtain s' where
    "save_original p (Suc (length (objects s))) (duplicate parent s) = Raised AttributeError s'"
    and rest: "lookup (objects s') (length (objects s)) = Some (parent\<lparr>name := ''Bake''\<rparr>)"
      "map_option name (lookup (objects s') (Suc (length (objects s)))) = Some ''Updated''"
      "collection s' = collection s @ [length (objects s), Suc (length (objects s))]"
    using save_original_no_action [OF assms(2) assms(4)] by blast
  then have "run ROTATION s = Raised AttributeError s'"
    by (simp add: run_active [OF assms(1-3)] run_armature_def before_bake_def Let_def)
  with rest show ?thesis by simp
qed

theorem C10_missing_action_witness:
  "otype (example_armature None) = ARMATURE \<and> animation_data (example_armature None) = None \<and>
   run 180 (bare_scene None) = Raised AttributeError (scene_of (run 180 (bare_scene None))) \<and>
   lookup (objects (scene_of (run 180 (bare_scene None)))) 1 =
     Some ((example_armature None)\<lparr>name := ''Bake''\<rparr>) \<and>
   map_option name (lookup (objects (scene_of (run 180 (bare_scene None)))) 2) = Some ''Updated'' \<and>
   collection (scene_of (run 180 (bare_scene None))) = [0, 1, 2]"
proof -
  have h: "active_object (bare_scene None) = Some 0"
    "lookup (objects (bare_scene None)) 0 = Some (example_armature None)"
    "otype (example_armature None) = ARMATURE"
    "animation_data (example_armature None) = None \<or>
       (\<exists>ad. animation_data (example_armature None) = Some ad \<and> action ad = None)"
    by (simp_all add: bare_scene_def example_armature_def lookup_def)
  have l: "length (objects (bare_scene None)) = 1" "collection (bare_scene None) = [0]"
    "animation_data (example_armature None) = None"
    by (simp_all add: bare_scene_def example_armature_def)
  from C10_missing_action_fails_after_duplication [OF h, of 180] l h(3)
  show ?thesis by (simp add: numeral_2_eq_2)
qed

lemma example_ready:
  "animated_armature (example_scene f0 f1 [0]) 0 (example_armature (Some example_data))
     example_data 0 (example_action f0 f1)"
  by (simp add: animated_armature_def example_scene_def example_armature_def example_data_def
      selection_valid_def lookup_def)

lemma example_sizes:
  "length (objects (example_scene f0 f1 sel)) = 1"
  "length (actions (example_scene f0 f1 sel)) = 1"
  "snd (frame_range (example_action f0 f1)) = f1"
  "fst (frame_range (example_action f0 f1)) = f0"
  "nla_tracks example_data = []"
  "name (example_armature anim) = ''Armature''"
  "rotation_euler_z (example_armature anim) = 0"
  by (simp_all add: example_scene_def example_action_def example_data_def example_armature_def)

lemma example_pose_bones:
  "pose_bones (example_armature anim) =
     [\<lparr>bone_name = ''root'', constraints = []\<rparr>, \<lparr>bone_name = ''hip'', constraints = []\<rparr>]"
  by (simp add: example_armature_def)






lemma prepared_placement:
  assumes p: "lookup (objects s) p = Some parent"
  shows "placement (prepared ROTATION p parent a act s) p =
           Some (rotation_euler_z parent + radians (of_int ROTATION))"
    and "placement (prepared ROTATION p parent a act s) (length (objects s)) =
           Some (rotation_euler_z parent)"
    and "map_option pose_bones (lookup (objects (prepared ROTATION p parent a act s)) (length (objects s))) =
           Some (map (copy_constraints p) (pose_bones parent))"
  using lookup_Some_less [OF p]
  by (simp_all add: placement_def prepared_def bake_copy_def)

lemma nla_bake_succeeds:
  "fs \<le> fe \<Longrightarrow> \<exists>s3. nla_bake fs fe s = Inr s3"
  by (simp add: nla_bake_alt)

text \<open>
  Claim C9. On a run that succeeds the selected armature itself is turned: when the
  bake operator is called, and still when it returns, its Z angle is the one it started
  with plus the script's angle; at the end of the script the angle is the one it
  started with again.
\<close>

theorem C9_source_rotated_during_bake:
  assumes "animated_armature s p parent ad a act" and "1 \<le> snd (frame_range act)"
  shows "\<exists>s2 s3. before_bake ROTATION p parent s = Inr (snd (frame_range act), s2) \<and>
           placement s p = Some (rotation_euler_z parent) \<and>
           placement s2 p = Some (rotation_euler_z parent + radians (of_int ROTATION)) \<and>
           nla_bake 1 (snd (frame_range act)) s2 = Inr s3 \<and>
           placement s3 p = Some (rotation_euler_z parent + radians (of_int ROTATION)) \<and>
           is_Done (run ROTATION s) \<and>
           placement (scene_of (run ROTATION s)) p = Some (rotation_euler_z parent)"
proof -
  from assms(1) have p: "lookup (objects s) p = Some parent"
    and ad: "animation_data parent = Some ad"
    and a: "action ad = Some a" and ac: "lookup (actions s) a = Some act"
    and sel: "selection_valid s"
    by (simp_all add: animated_armature_def)
  let ?s2 = "prepared ROTATION p parent a act s"
  obtain s3 where s3: "nla_bake 1 (snd (frame_range act)) ?s2 = Inr s3"
    using nla_bake_succeeds [OF assms(2)] by blast
  have "placement s3 p = Some (rotation_euler_z parent + radians (of_int ROTATION))"
    by (simp add: nla_bake_placement [OF s3] prepared_placement [OF p])
  moreover have "placement s p = Some (rotation_euler_z parent)"
    by (simp add: placement_def p)
  moreover note before_bake_ready [OF p ad a ac sel, of ROTATION] s3
    prepared_placement(1) [OF p, of ROTATION a act] run_success [OF assms, of ROTATION]
  ultimately show ?thesis by blast
qed

theorem C9_source_rotated_during_bake_witness:
  "animated_armature (example_scene 1 10 [0]) 0 (example_armature (Some example_data))
     example_data 0 (example_action 1 10) \<and>
   (\<exists>s2 s3. before_bake 180 0 (example_armature (Some example_data)) (example_scene 1 10 [0]) =
        Inr (10, s2) \<and>
      placement (example_scene 1 10 [0]) 0 = Some 0 \<and>
      placement s2 0 = Some pi \<and> nla_bake 1 10 s2 = Inr s3 \<and> placement s3 0 = Some pi) \<and>
   is_Done (run 180 (example_scene 1 10 [0])) \<and>
   placement (scene_of (run 180 (example_scene 1 10 [0]))) 0 = Some 0"
proof -
  have r: "animated_armature (example_scene 1 10 [0]) 0 (example_armature (Some example_data))
     example_data 0 (example_action 1 10)"
    by (rule example_ready)
  have l: "1 \<le> snd (frame_range (example_action 1 10))"
    by (simp add: example_sizes)
  from C9_source_rotated_during_bake [OF r l, of 180] r show ?thesis
    by (auto simp: example_sizes radians_def)
qed

lemma example_root:
  "bone_matrix (example_scene f0 f1 sel) (example_armature (Some example_data)) ''root'' f =
     Matrix (1, 0) (\<i>, 0) (0, 1) (\<i> * of_int f, 0)"
  by (simp add: bone_matrix_def animated_pose_def example_scene_def example_armature_def
      example_data_def example_action_def lookup_def)

lemma example_rotated_root:
  "map_of (rotated_pose ROTATION (example_scene f0 f1 sel) (example_armature (Some example_data)) f)
     ''root'' =
   Some (rot_z (radians (of_int ROTATION)) (Matrix (1, 0) (\<i>, 0) (0, 1) (\<i> * of_int f, 0)))"
  by (simp add: rotated_pose_def example_pose_bones example_root)

text \<open>
  Claim C1, as stated, fails: the script turns the source, not the target. With the
  angle 90 and an armature placed at angle 0, the source is at a quarter turn and the
  target at 0 when the bake is called, and the pose recorded for \<open>root\<close> at frame 1 is
  the original one turned by a quarter turn, not by its inverse.
\<close>

theorem C1_counterexample:
  "before_bake 90 0 (example_armature (Some example_data)) (example_scene 1 10 [0]) =
     Inr (10, prepared 90 0 (example_armature (Some example_data)) 0 (example_action 1 10)
                (example_scene 1 10 [0])) \<and>
   placement (prepared 90 0 (example_armature (Some example_data)) 0 (example_action 1 10)
                (example_scene 1 10 [0])) 0 = Some (pi / 2) \<and>
   placement (prepared 90 0 (example_armature (Some example_data)) 0 (example_action 1 10)
                (example_scene 1 10 [0])) 1 = Some 0 \<and>
   archived_action (scene_of (run 90 (example_scene 1 10 [0]))) 2 =
     Some (write_keys (baked_info 90 (example_scene 1 10 [0])
                         (example_armature (Some example_data)) 10) None) \<and>
   map_of (fcurves (write_keys (baked_info 90 (example_scene 1 10 [0])
                         (example_armature (Some example_data)) 10) None) 1) ''root'' =
     Some (Matrix (\<i>, 0) (- 1, 0) (0, 1) (- 1, 0)) \<and>
   rot_z (- radians 90) (Matrix (1, 0) (\<i>, 0) (0, 1) (\<i>, 0)) =
     Matrix (- \<i>, 0) (1, 0) (0, 1) (1, 0) \<and>
   Matrix (\<i>, 0) (- 1, 0) (0, 1) (- 1, 0) \<noteq> Matrix (- \<i>, 0) (1, 0) (0, 1) (1, 0)"
proof -
  let ?ex = "example_scene 1 10 [0]" and ?arm = "example_armature (Some example_data)"
  have r: "animated_armature ?ex 0 ?arm example_data 0 (example_action 1 10)"
    by (rule example_ready)
  then have p: "lookup (objects ?ex) 0 = Some ?arm"
    and ad: "animation_data ?arm = Some example_data"
    and a: "action example_data = Some 0" and ac: "lookup (actions ?ex) 0 = Some (example_action 1 10)"
    and sel: "selection_valid ?ex"
    by (simp_all add: animated_armature_def)
  have l: "1 \<le> snd (frame_range (example_action 1 10))"
    by (simp add: example_sizes)
  have q: "radians 90 = pi / 2" by (simp add: radians_def)
  have 1: "before_bake 90 0 ?arm ?ex = Inr (10, prepared 90 0 ?arm 0 (example_action 1 10) ?ex)"
    using before_bake_ready [OF p ad a ac sel, of 90] by (simp add: example_sizes)
  have 2: "placement (prepared 90 0 ?arm 0 (example_action 1 10) ?ex) 0 = Some (pi / 2)"
    using prepared_placement(1) [OF p, of 90 0 "example_action 1 10"]
    by (simp add: example_sizes q)
  have 3: "placement (prepared 90 0 ?arm 0 (example_action 1 10) ?ex) 1 = Some 0"
    using prepared_placement(2) [OF p, of 90 0 "example_action 1 10"]
    by (simp add: example_sizes)
  have 4: "archived_action (scene_of (run 90 ?ex)) 2 =
     Some (write_keys (baked_info 90 ?ex ?arm 10) None)"
    using run_success [OF r l, of 90] by (auto simp: example_sizes numeral_2_eq_2)
  have 5: "map_of (fcurves (write_keys (baked_info 90 ?ex ?arm 10) None) 1) ''root'' =
     Some (Matrix (\<i>, 0) (- 1, 0) (0, 1) (- 1, 0))"
    by (simp add: baked_info_fcurves example_rotated_root q rot_z_def rot_z_vec_def)
  have 6: "rot_z (- radians 90) (Matrix (1, 0) (\<i>, 0) (0, 1) (\<i>, 0)) =
     Matrix (- \<i>, 0) (1, 0) (0, 1) (1, 0)"
    by (simp add: q rot_z_def rot_z_vec_def)
  have 7: "Matrix (\<i>, 0) (- 1, 0) (0, 1) (- 1, 0) \<noteq> Matrix (- \<i>, 0) (1, 0) (0, 1) (1, 0)"
    by (simp add: complex_eq_iff)
  from 1 2 3 4 5 6 7 show ?thesis by blast
qed

lemma source_world_prepared:
  assumes p: "lookup (objects s) p = Some parent"
  shows "rot_z (- rotation_euler_z parent)
           (bone_world (prepared ROTATION p parent a act s)
              (parent\<lparr>rotation_euler_z := rotation_euler_z parent + radians (of_int ROTATION)\<rparr>)
              n f) =
         rot_z (radians (of_int ROTATION)) (bone_matrix s parent n f)"
proof -
  have "bone_matrix (prepared ROTATION p parent a act s)
          (parent\<lparr>rotation_euler_z := rotation_euler_z parent + radians (of_int ROTATION)\<rparr>) n f =
        bone_matrix s parent n f"
    by (rule bone_matrix_cong) (simp_all add: animated_pose_def prepared_def split: option.splits)
  then show ?thesis by (simp add: bone_world_def)
qed

text \<open>
  Claim C1, amended. When the bake is called the source (the selected armature) is at
  its own angle plus the script's angle and the target (the copy \<open>Bake\<close>) at the
  source's own angle; every bone of the target has, at the end of its stack, a copy
  rotation and a copy location of influence 1 aimed at the source's bone of the same
  name. For every frame from 1 to \<open>f1\<close> the pose recorded in the archived rebaked
  action is, bone for bone, the world matrix of the source's bone read back in the
  target's frame, which is the source's own pose at that frame turned about Z by the
  script's angle (not by its inverse).
\<close>

theorem C1_recorded_pose_is_rotated_source_pose:
  assumes "animated_armature s p parent ad a act" and "1 \<le> snd (frame_range act)"
  shows "\<exists>s2 source.
           before_bake ROTATION p parent s = Inr (snd (frame_range act), s2) \<and>
           lookup (objects s2) p = Some source \<and>
           rotation_euler_z source = rotation_euler_z parent + radians (of_int ROTATION) \<and>
           placement s2 (length (objects s)) = Some (rotation_euler_z parent) \<and>
           map_option pose_bones (lookup (objects s2) (length (objects s))) =
             Some (map (copy_constraints p) (pose_bones parent)) \<and>
           is_Done (run ROTATION s) \<and>
           (\<forall>f. 1 \<le> f \<and> f \<le> snd (frame_range act) \<longrightarrow>
              map_option (\<lambda>r. fcurves r f)
                (archived_action (scene_of (run ROTATION s)) (Suc (length (objects s)))) =
              Some (rotated_pose ROTATION s parent f) \<and>
              rotated_pose ROTATION s parent f =
                map (\<lambda>pb. (bone_name pb,
                       rot_z (- rotation_euler_z parent) (bone_world s2 source (bone_name pb) f)))
                  (pose_bones parent))"
proof -
  from assms(1) have p: "lookup (objects s) p = Some parent"
    and ad: "animation_data parent = Some ad"
    and a: "action ad = Some a" and ac: "lookup (actions s) a = Some act"
    and sel: "selection_valid s"
    by (simp_all add: animated_armature_def)
  let ?s2 = "prepared ROTATION p parent a act s"
  let ?src = "parent\<lparr>rotation_euler_z := rotation_euler_z parent + radians (of_int ROTATION)\<rparr>"
  have rec: "\<forall>f. 1 \<le> f \<and> f \<le> snd (frame_range act) \<longrightarrow>
              map_option (\<lambda>r. fcurves r f)
                (archived_action (scene_of (run ROTATION s)) (Suc (length (objects s)))) =
              Some (rotated_pose ROTATION s parent f)"
    using run_success [OF assms, of ROTATION] by (auto simp: baked_info_fcurves)
  have w: "rotated_pose ROTATION s parent f =
        map (\<lambda>pb. (bone_name pb,
               rot_z (- rotation_euler_z parent) (bone_world ?s2 ?src (bone_name pb) f)))
          (pose_bones parent)" for f
    by (simp add: rotated_pose_def source_world_prepared [OF p])
  have src: "lookup (objects ?s2) p = Some ?src"
    by (rule prepared_lookups(3) [OF p ad])
  have z: "rotation_euler_z ?src = rotation_euler_z parent + radians (of_int ROTATION)"
    by simp
  have d: "is_Done (run ROTATION s)"
    using run_success [OF assms, of ROTATION] by blast
  from before_bake_ready [OF p ad a ac sel, of ROTATION] src z
    prepared_placement(2,3) [OF p, of ROTATION a act] d rec w
  show ?thesis by blast
qed

theorem C1_recorded_pose_witness:
  "animated_armature (example_scene 1 10 [0]) 0 (example_armature (Some example_data))
     example_data 0 (example_action 1 10) \<and>
   is_Done (run 180 (example_scene 1 10 [0])) \<and>
   map_option (\<lambda>r. map_of (fcurves r 10) ''root'')
     (archived_action (scene_of (run 180 (example_scene 1 10 [0]))) 2) =
     Some (Some (Matrix (- 1, 0) (- \<i>, 0) (0, 1) (- (\<i> * 10), 0)))"
proof -
  have r: "animated_armature (example_scene 1 10 [0]) 0 (example_armature (Some example_data))
     example_data 0 (example_action 1 10)"
    by (rule example_ready)
  have l: "1 \<le> snd (frame_range (example_action 1 10))"
    by (simp add: example_sizes)
  have q: "radians 180 = pi" by (simp add: radians_def)
  from C1_recorded_pose_is_rotated_source_pose [OF r l, of 180]
  obtain s2 source where d: "is_Done (run 180 (example_scene 1 10 [0]))"
    and all: "\<forall>f. 1 \<le> f \<and> f \<le> snd (frame_range (example_action 1 10)) \<longrightarrow>
        map_option (\<lambda>r. fcurves r f)
          (archived_action (scene_of (run 180 (example_scene 1 10 [0])))
             (Suc (length (objects (example_scene 1 10 [0]))))) =
        Some (rotated_pose 180 (example_scene 1 10 [0]) (example_armature (Some example_data)) f) \<and>
        rotated_pose 180 (example_scene 1 10 [0]) (example_armature (Some example_data)) f =
          map (\<lambda>pb. (bone_name pb,
                 rot_z (- rotation_euler_z (example_armature (Some example_data)))
                   (bone_world s2 source (bone_name pb) f)))
            (pose_bones (example_armature (Some example_data)))"
    by blast
  have "1 \<le> (10::int) \<and> 10 \<le> snd (frame_range (example_action 1 10))"
    by (simp add: example_sizes)
  with all have "map_option (\<lambda>r. fcurves r 10)
          (archived_action (scene_of (run 180 (example_scene 1 10 [0])))
             (Suc (length (objects (example_scene 1 10 [0]))))) =
        Some (rotated_pose 180 (example_scene 1 10 [0]) (example_armature (Some example_data)) 10)"
    by blast
  then have f: "map_option (\<lambda>r. fcurves r 10)
        (archived_action (scene_of (run 180 (example_scene 1 10 [0]))) 2) =
      Some (rotated_pose 180 (example_scene 1 10 [0]) (example_armature (Some example_data)) 10)"
    by (simp add: example_sizes numeral_2_eq_2)
  from f have "map_option (\<lambda>r. map_of (fcurves r 10) ''root'')
     (archived_action (scene_of (run 180 (example_scene 1 10 [0]))) 2) =
     Some (map_of (rotated_pose 180 (example_scene 1 10 [0])
              (example_armature (Some example_data)) 10) ''root'')"
    by auto
  with r d show ?thesis
    by (simp add: example_rotated_root q rot_z_def rot_z_vec_def)
qed

lemma linked_update_object [simp]: "linked (update_object i f s) j = linked s j"
  by (auto simp: linked_def objects_update_object)

lemma linked_bake_all [simp]: "linked (bake_all xs s) j = linked s j"
proof -
  have "(lookup (objects (bake_all xs s)) j = None) = (lookup (objects s) j = None)"
    using bake_all_name [of xs s j] by (metis option.map_disc_iff)
  then show ?thesis by (simp add: linked_def)
qed

lemma linked_duplicate: "linked (duplicate parent s) (length (objects s))"
  by (simp add: linked_def duplicate_def Let_def)

lemma linked_save_original:
  "save_original p u s = Raised e s' \<Longrightarrow> linked s' j = linked s j"
  "save_original p u s = Done s' \<Longrightarrow> linked s' j = linked s j"
  by (auto simp: save_original_def Let_def new_track_def new_strip_def
      split: option.splits prod.splits)

lemma linked_prepare_bake [simp]: "linked (prepare_bake ROTATION p b s) j = linked s j"
  by (simp add: prepare_bake_def mode_set_def select_set_def rotate_z_def
      animation_data_clear_def add_constraints_def linked_def objects_update_object)

lemma linked_nla_bake: "nla_bake fs fe s = Inr s3 \<Longrightarrow> linked s3 j = linked s j"
  by (auto simp: nla_bake_alt split: if_splits)

lemma push_down_Raised:
  "push_down ROTATION p b u s = Raised e s' \<Longrightarrow> linked s' j = linked s j"
  by (auto simp: push_down_def Let_def new_track_def split: option.splits prod.splits)

lemma run_armature_Raised_linked:
  assumes "run_armature ROTATION p parent s = Raised e s'"
  shows "linked s' (length (objects s))"
proof -
  let ?b = "length (objects s)"
  have d: "linked (duplicate parent s) ?b" by (rule linked_duplicate)
  show ?thesis
  proof (cases "save_original p (Suc ?b) (duplicate parent s)")
    case (Raised e1 s1)
    with assms have "s' = s1"
      by (simp add: run_armature_def before_bake_def Let_def)
    with linked_save_original(1) [OF Raised] d show ?thesis by simp
  next
    case (Done s1)
    have s1: "linked s1 ?b" using linked_save_original(2) [OF Done] d by simp
    show ?thesis
    proof (cases "animation_length p s1")
      case None
      with assms Done have "s' = s1"
        by (simp add: run_armature_def before_bake_def Let_def)
      with s1 show ?thesis by simp
    next
      case (Some len)
      let ?s2 = "prepare_bake ROTATION p ?b s1"
      have s2: "linked ?s2 ?b" using s1 by simp
      have bb: "before_bake ROTATION p parent s = Inr (len, ?s2)"
        using Done Some by (simp add: before_bake_def Let_def)
      show ?thesis
      proof (cases "nla_bake 1 len ?s2")
        case (Inl e2)
        with assms bb have "s' = ?s2" by (simp add: run_armature_def Let_def)
        with s2 show ?thesis by simp
      next
        case (Inr s3)
        have s3: "linked s3 ?b" using linked_nla_bake [OF Inr] s2 by simp
        from assms bb Inr obtain e4 where "push_down ROTATION p ?b (Suc ?b) s3 = Raised e4 s'"
          by (auto simp: run_armature_def Let_def split: outcome.splits)
        from push_down_Raised [OF this] s3 show ?thesis by simp
      qed
    qed
  qed
qed

lemma finish_deletes:
  assumes "u \<noteq> b"
  shows "\<not> linked (finish ROTATION p b u s) b \<and> lookup (objects (finish ROTATION p b u s)) b = None
         \<and> b \<notin> set (collection (finish ROTATION p b u s))"
proof -
  have sel: "selected (select_set b (deselect_all t)) = [b]" for t
    by (simp add: select_set_def deselect_all_def)
  have "lookup (objects (delete_selected (select_set b (deselect_all t)))) b = None" for t
    by (simp add: delete_selected_lookup sel)
  moreover have "b \<notin> set (collection (delete_selected (select_set b (deselect_all t))))" for t
    by (simp add: sel)
  ultimately show ?thesis
    using assms by (simp add: finish_def Let_def objects_update_object linked_def)
qed

lemma run_armature_Done_deleted:
  assumes "run_armature ROTATION p parent s = Done s'"
  shows "lookup (objects s') (length (objects s)) = None \<and>
         length (objects s) \<notin> set (collection s')"
proof -
  from assms obtain s4 where
    "s' = finish ROTATION p (length (objects s)) (Suc (length (objects s))) s4"
    by (auto simp: run_armature_def Let_def split: sum.splits prod.splits outcome.splits)
  then show ?thesis
    using finish_deletes [of "Suc (length (objects s))" "length (objects s)" ROTATION p s4]
    by simp
qed

lemma run_empty_range:
  assumes ready: "animated_armature s p parent ad a act" and len: "snd (frame_range act) < 1"
  shows "run ROTATION s = Raised RuntimeError (prepared ROTATION p parent a act s)"
proof -
  from ready have act: "active_object s = Some p" and p: "lookup (objects s) p = Some parent"
    and arm: "otype parent = ARMATURE" and ad: "animation_data parent = Some ad"
    and a: "action ad = Some a" and ac: "lookup (actions s) a = Some act"
    and sel: "selection_valid s"
    by (simp_all add: animated_armature_def)
  show ?thesis
    using len
    by (simp add: run_active [OF act p arm] run_armature_def Let_def
        before_bake_ready [OF p ad a ac sel] nla_bake_alt)
qed





text \<open>
  Claim C7, as stated, fails. An armature without animation data makes the script stop
  at line 59, and with the frame range \<open>(-2, 0)\<close> the script stops at the bake; in
  the scene left behind, both times, the copy \<open>Bake\<close> still exists and is still
  linked to the collection.
\<close>

theorem C7_counterexample:
  "run 180 (bare_scene None) = Raised AttributeError (scene_of (run 180 (bare_scene None))) \<and>
   map_option name (lookup (objects (scene_of (run 180 (bare_scene None)))) 1) = Some ''Bake'' \<and>
   1 \<in> set (collection (scene_of (run 180 (bare_scene None)))) \<and>
   run 180 (example_scene (- 2) 0 [0]) =
     Raised RuntimeError (scene_of (run 180 (example_scene (- 2) 0 [0]))) \<and>
   map_option name (lookup (objects (scene_of (run 180 (example_scene (- 2) 0 [0])))) 1) =
     Some ''Bake'' \<and>
   1 \<in> set (collection (scene_of (run 180 (example_scene (- 2) 0 [0]))))"
proof -
  let ?ex = "example_scene (- 2) 0 [0]" and ?arm = "example_armature (Some example_data)"
  have r: "animated_armature ?ex 0 ?arm example_data 0 (example_action (- 2) 0)"
    by (rule example_ready)
  have "snd (frame_range (example_action (- 2) 0)) < 1" by (simp add: example_sizes)
  from run_empty_range [OF r this, of 180]
  have e: "run 180 ?ex = Raised RuntimeError (prepared 180 0 ?arm 0 (example_action (- 2) 0) ?ex)" .
  have p: "lookup (objects ?ex) 0 = Some ?arm" "animation_data ?arm = Some example_data"
    using r by (simp_all add: animated_armature_def)
  have c: "collection ?ex = [0]" by (simp add: example_scene_def)
  have b: "run 180 ?ex = Raised RuntimeError (scene_of (run 180 ?ex)) \<and>
      map_option name (lookup (objects (scene_of (run 180 ?ex))) 1) = Some ''Bake'' \<and>
      1 \<in> set (collection (scene_of (run 180 ?ex)))"
    using prepared_lookups(1,7) [OF p, of 180 0 "example_action (- 2) 0"]
    by (simp add: e example_sizes bake_copy_def c)
  have n: "run 180 (bare_scene None) = Raised AttributeError (scene_of (run 180 (bare_scene None)))
      \<and> map_option name (lookup (objects (scene_of (run 180 (bare_scene None)))) 1) = Some ''Bake''
      \<and> 1 \<in> set (collection (scene_of (run 180 (bare_scene None))))"
    by (simp add: run_def run_armature_def before_bake_def save_original_def duplicate_def
        bare_scene_def example_armature_def Let_def lookup_def)
  from n b show ?thesis by blast
qed

text \<open>
  Claim C7, amended. When the script runs to its end, the copy \<open>Bake\<close> has been
  deleted: it no longer exists and is no longer in the collection. When the script
  stops at an exception in the branch for armatures (missing animation data or action,
  failure of the bake), the copy \<open>Bake\<close> is left in the scene.
\<close>

theorem C7_scratch_deleted_only_on_success:
  assumes "active_object s = Some p" and "lookup (objects s) p = Some parent"
    and "otype parent = ARMATURE"
  shows "(is_Done (run ROTATION s) \<longrightarrow>
            lookup (objects (scene_of (run ROTATION s))) (length (objects s)) = None \<and>
            length (objects s) \<notin> set (collection (scene_of (run ROTATION s)))) \<and>
         (\<not> is_Done (run ROTATION s) \<longrightarrow> linked (scene_of (run ROTATION s)) (length (objects s)))"
proof (cases "run_armature ROTATION p parent s")
  case (Done s')
  with run_armature_Done_deleted [OF Done] show ?thesis
    by (simp add: run_active [OF assms])
next
  case (Raised e s')
  with run_armature_Raised_linked [OF Raised] show ?thesis
    by (simp add: run_active [OF assms])
qed

theorem C7_scratch_deleted_only_on_success_witness:
  "is_Done (run 180 (example_scene 1 10 [0])) \<and>
   lookup (objects (scene_of (run 180 (example_scene 1 10 [0])))) 1 = None \<and>
   1 \<notin> set (collection (scene_of (run 180 (example_scene 1 10 [0])))) \<and>
   \<not> is_Done (run 180 (bare_scene None)) \<and>
   linked (scene_of (run 180 (bare_scene None))) 1"
proof -
  have h: "active_object (example_scene 1 10 [0]) = Some 0"
    "lookup (objects (example_scene 1 10 [0])) 0 = Some (example_armature (Some example_data))"
    "otype (example_armature (Some example_data)) = ARMATURE"
    using example_ready [of 1 10] by (simp_all add: animated_armature_def)
  have "1 \<le> snd (frame_range (example_action 1 10))" by (simp add: example_sizes)
  from run_success [OF example_ready this, of 180]
  have d: "is_Done (run 180 (example_scene 1 10 [0]))" by blast
  have g: "active_object (bare_scene None) = Some 0"
    "lookup (objects (bare_scene None)) 0 = Some (example_armature None)"
    "otype (example_armature None) = ARMATURE"
    by (simp_all add: bare_scene_def example_armature_def lookup_def)
  have n: "\<not> is_Done (run 180 (bare_scene None))"
    by (simp add: run_def run_armature_def before_bake_def save_original_def duplicate_def
        bare_scene_def example_armature_def Let_def lookup_def)
  have l: "length (objects (bare_scene None)) = 1" by (simp add: bare_scene_def)
  from C7_scratch_deleted_only_on_success [OF h, of 180]
       C7_scratch_deleted_only_on_success [OF g, of 180] d n
  show ?thesis by (simp add: example_sizes l)
qed





lemmas script_defs =
  run_def run_armature_def before_bake_def save_original_def duplicate_def new_track_def
  new_strip_def update_object_def animation_length_def prepare_bake_def add_constraints_def
  copy_constraints_def animation_data_clear_def rotate_z_def select_set_def mode_set_def
  nla_bake_def bake_all_def bake_targets_def bake_object_def write_keys_def push_down_def
  finish_def deselect_all_def delete_selected_def lookup_def Let_def

lemma upto_1_5: "[1..5] = [1, 2, 3, 4, 5]"
  by (simp add: upto_rec1)

text \<open>
  Claim C3 at an input where it fails. The armature is active and selected, and its
  action spans the frames 3 to 5. The script adds the copy \<open>Bake\<close> to the selection
  without taking the armature out of it, so the bake, which writes into the current
  action of every selected armature, also writes the frames 1 to 5 into the original
  action: after the run its range is \<open>(1, 5)\<close>. With the armature active but not
  selected, the original action is left as it was.
\<close>

theorem C3_selected_armature_action_rekeyed:
  "map_option frame_range (lookup (actions (example_scene 3 5 [0])) 0) = Some (3, 5) \<and>
   is_Done (run 180 (example_scene 3 5 [0])) \<and>
   map_option frame_range (lookup (actions (scene_of (run 180 (example_scene 3 5 [0])))) 0) =
     Some (1, 5) \<and>
   is_Done (run 180 (example_scene 3 5 [])) \<and>
   lookup (actions (scene_of (run 180 (example_scene 3 5 [])))) 0 = Some (example_action 3 5)"
proof -
  have 1: "map_option frame_range (lookup (actions (example_scene 3 5 [0])) 0) = Some (3, 5)"
    by (simp add: example_scene_def example_action_def lookup_def)
  have 2: "is_Done (run 180 (example_scene 3 5 [0])) \<and>
    map_option frame_range (lookup (actions (scene_of (run 180 (example_scene 3 5 [0])))) 0) =
     Some (1, 5)"
    by (simp add: script_defs example_scene_def example_armature_def example_data_def
        example_action_def upto_1_5 del: upto.simps)
  have 3: "is_Done (run 180 (example_scene 3 5 [])) \<and>
    lookup (actions (scene_of (run 180 (example_scene 3 5 [])))) 0 = Some (example_action 3 5)"
    by (simp add: script_defs example_scene_def example_armature_def example_data_def
        example_action_def upto_1_5 del: upto.simps)
  from 1 2 3 show ?thesis by blast
qed

end
